theory Spec2Isabelle
  imports Main "HOL-Library.AList"
begin

section \<open>Geo-spatial filtering backend of django-elasticsearch-dsl-drf\<close>

text \<open>
  A shallow embedding of
  \<^verbatim>\<open>django_elasticsearch_dsl_drf/filter_backends/filtering/geo_spatial.py\<close>,
  class \<^verbatim>\<open>GeoSpatialFilteringFilterBackend\<close>.

  Python dictionaries are association lists whose keys are distinct; a store
  \<^verbatim>\<open>d[k] = v\<close> is \<open>AList.update k v d\<close>, which overwrites in place or appends, as
  a Python dictionary keeps insertion order. The option dictionaries of the field
  configuration are objects that the code mutates in place, so they live in a store and the
  configuration holds their addresses. Every exception the Python can raise is a value
  \<open>Inl e\<close> of a sum type. Strings are lists of \<open>char\<close>, read as code points below
  256.
\<close>

subsection \<open>Exceptions\<close>

datatype py_error = ValueError | IndexError | KeyError | TypeError

subsection \<open>Constants of the package\<close>

text \<open>
  The module imports \<^verbatim>\<open>ALL_GEO_SPATIAL_LOOKUP_FILTERS_AND_QUERIES\<close> and
  \<^verbatim>\<open>LOOKUP_FILTER_GEO_DISTANCE\<close> from \<^verbatim>\<open>constants.py\<close>, and the two
  splitting helpers of \<^verbatim>\<open>FilterBackendMixin\<close> use two separator constants
  of the same module. Their values are not part of the file, so every function below takes
  them as a parameter \<open>K\<close>.
\<close>

record constants =
  SEPARATOR_LOOKUP_FILTER :: string
  SEPARATOR_LOOKUP_VALUE :: string
  LOOKUP_FILTER_GEO_DISTANCE :: string
  ALL_GEO_SPATIAL_LOOKUP_FILTERS_AND_QUERIES :: "string list"

subsection \<open>Python string operations\<close>

text \<open>
  \<^verbatim>\<open>str.isspace\<close> on the code points below 256: tab, line feed, vertical tab, form
  feed, carriage return, the four separators 0x1C to 0x1F, space, next line (0x85) and
  no-break space (0xA0).
\<close>

definition isspace :: "char \<Rightarrow> bool" where
  "isspace c = (c \<in> set [CHR 0x09, CHR 0x0A, CHR 0x0B, CHR 0x0C, CHR 0x0D,
     CHR 0x1C, CHR 0x1D, CHR 0x1E, CHR 0x1F, CHR 0x20, CHR 0x85, CHR 0xA0])"

text \<open>\<^verbatim>\<open>s.strip()\<close>: leading and trailing whitespace removed.\<close>

definition strip :: "string \<Rightarrow> string" where
  "strip s = rev (dropWhile isspace (rev (dropWhile isspace s)))"

text \<open>
  The leftmost occurrence of a non-empty separator: the text before it and the text
  after it.
\<close>

fun find_sep :: "string \<Rightarrow> string \<Rightarrow> (string \<times> string) option" where
  "find_sep sep [] = None"
| "find_sep sep (c # cs) =
     (if take (length sep) (c # cs) = sep then Some ([], drop (length sep) (c # cs))
      else (case find_sep sep cs of
              None \<Rightarrow> None
            | Some (before, rest) \<Rightarrow> Some (c # before, rest)))"

text \<open>
  \<^verbatim>\<open>s.split(sep, maxsplit)\<close> for a non-empty separator and \<open>maxsplit \<ge> 0\<close>: at
  most \<open>maxsplit\<close> splits, from the left; the remainder is the last component.
\<close>

fun split_loop :: "string \<Rightarrow> nat \<Rightarrow> string \<Rightarrow> string list" where
  "split_loop sep 0 s = [s]"
| "split_loop sep (Suc n) s =
     (case find_sep sep s of
        None \<Rightarrow> [s]
      | Some (before, rest) \<Rightarrow> before # split_loop sep n rest)"

text \<open>An empty separator raises \<^verbatim>\<open>ValueError\<close>.\<close>

definition str_split :: "string \<Rightarrow> string \<Rightarrow> nat \<Rightarrow> py_error + string list" where
  "str_split s sep maxsplit =
     (if sep = [] then Inl ValueError else Inr (split_loop sep maxsplit s))"

subsection \<open>The helpers of FilterBackendMixin\<close>

definition split_lookup_filter :: "constants \<Rightarrow> string \<Rightarrow> nat \<Rightarrow> py_error + string list" where
  \<comment> \<open>Modelled from the spec: \<^verbatim>\<open>FilterBackendMixin.split_lookup_filter\<close> (mixins.py)
      is not in the file; section 4.2 step 1 has it split a parameter key on the reserved
      double-underscore-style separator, at most \<open>maxsplit\<close> times.\<close>
  "split_lookup_filter K value maxsplit = str_split value (SEPARATOR_LOOKUP_FILTER K) maxsplit"

definition split_lookup_value :: "constants \<Rightarrow> string \<Rightarrow> nat \<Rightarrow> py_error + string list" where
  \<comment> \<open>Modelled from the spec: \<^verbatim>\<open>FilterBackendMixin.split_lookup_value\<close> (mixins.py)
      is not in the file; section 4.3 has it split a raw value on the fixed delimiter of
      compound lookup values, at most \<open>maxsplit\<close> times.\<close>
  "split_lookup_value K value maxsplit = str_split value (SEPARATOR_LOOKUP_VALUE K) maxsplit"

subsection \<open>The search-request builder\<close>

text \<open>
  The parameters of a query clause are a dictionary from names to values; a value is a
  string or the nested dictionary \<^verbatim>\<open>{'lat': ..., 'lon': ...}\<close>.
\<close>

datatype param_value = Str string | LatLon string string

type_synonym params = "(string \<times> param_value) list"

text \<open>
  \<^verbatim>\<open>Q\<close>, the query classes and \<^verbatim>\<open>Search\<close> belong to elasticsearch-dsl. A query
  object is its name and its parameters.
\<close>

datatype es_query = Query string params

text \<open>
  The constructor of a query class, \<^verbatim>\<open>DslBase.__init__(self, **params)\<close>, stores each
  keyword under its name with every \<^verbatim>\<open>__\<close> replaced by a dot:
  \<^verbatim>\<open>pname.replace('__', '.')\<close>, non-overlapping occurrences from the left.
\<close>

fun expand_to_dot :: "string \<Rightarrow> string" where
  "expand_to_dot (c # d # cs) =
     (if c = CHR ''_'' \<and> d = CHR ''_'' then CHR ''.'' # expand_to_dot cs
      else c # expand_to_dot (d # cs))"
| "expand_to_dot cs = cs"

fun set_params :: "params \<Rightarrow> params \<Rightarrow> params" where
  "set_params [] acc = acc"
| "set_params ((pname, pvalue) # rest) acc =
     set_params rest (AList.update (expand_to_dot pname) pvalue acc)"

text \<open>
  \<^verbatim>\<open>Q(name_or_query, **params)\<close> with a string as first argument calls the query class
  of that name with the keywords. A keyword named \<^verbatim>\<open>name_or_query\<close> would bind the
  parameter of \<^verbatim>\<open>Q\<close> a second time, and a keyword named \<^verbatim>\<open>self\<close> the parameter of
  the constructor: Python raises \<^verbatim>\<open>TypeError\<close> for either.
\<close>

definition Q :: "string \<Rightarrow> params \<Rightarrow> py_error + es_query" where
  "Q name_or_query ps =
     (if ''name_or_query'' \<in> set (map fst ps) \<or> ''self'' \<in> set (map fst ps)
      then Inl TypeError
      else Inr (Query name_or_query (set_params ps [])))"

text \<open>
  The builder is immutable: \<^verbatim>\<open>Search.query(q)\<close> returns a new builder with the clause
  added. It is modelled by the clauses added so far, in the order of the calls.
\<close>

datatype search = Search "es_query list"

fun queries :: "search \<Rightarrow> es_query list" where
  "queries (Search qs) = qs"

definition search_query :: "search \<Rightarrow> es_query \<Rightarrow> search" where
  "search_query queryset q = Search (queries queryset @ [q])"

subsection \<open>Field configuration, request and view\<close>

text \<open>
  A value of \<^verbatim>\<open>geo_spatial_filter_fields\<close> is \<^verbatim>\<open>None\<close>, a string, or a dictionary
  that may hold the keys \<^verbatim>\<open>'field'\<close> (a string) and \<^verbatim>\<open>'lookups'\<close> (a sequence of
  strings). The dictionary is an object: the configuration holds its address, and two keys
  may hold the same address.
\<close>

record field_options =
  opt_field :: "string option"
  opt_lookups :: "string list option"

datatype options = PyNone | PyStr string | PyDict nat

type_synonym filter_fields = "(string \<times> options) list"

text \<open>
  The view, with the store of the option dictionaries: \<open>dicts v ! a\<close> is the object at
  the address \<open>a\<close>, and a new object gets the address \<open>length (dicts v)\<close>.
\<close>

record view =
  geo_spatial_filter_fields :: filter_fields
  dicts :: "field_options list"
  mapping :: string

text \<open>
  What holds of every Python state: the keys of the dictionary are distinct and every
  address points to an object.
\<close>

definition wf_view :: "view \<Rightarrow> bool" where
  "wf_view v =
     (distinct (map fst (geo_spatial_filter_fields v)) \<and>
      list_all (\<lambda>(field, opts). case opts of PyDict a \<Rightarrow> a < length (dicts v) | _ \<Rightarrow> True)
        (geo_spatial_filter_fields v))"

text \<open>
  \<^verbatim>\<open>request.query_params\<close> is a multi-valued dictionary: each key has a list of
  values. \<^verbatim>\<open>getlist\<close> returns the list of a key, and the empty list for a missing key.
\<close>

record request =
  query_params :: "(string \<times> string list) list"

definition getlist :: "(string \<times> string list) list \<Rightarrow> string \<Rightarrow> string list" where
  "getlist qp key = (case map_of qp key of None \<Rightarrow> [] | Some vs \<Rightarrow> vs)"

text \<open>An entry of the dictionary that \<^verbatim>\<open>get_filter_query_params\<close> returns.\<close>

record filter_request =
  fq_lookup :: "string option"
  fq_values :: "string list"
  fq_field :: string
  fq_type :: string

type_synonym filter_query_params = "(string \<times> filter_request) list"

subsection \<open>prepare_filter_fields\<close>

text \<open>
  Lines 70 to 75, for the item \<open>(field, options)\<close>. For \<^verbatim>\<open>None\<close> and for a string a
  new dictionary \<^verbatim>\<open>{'field': options or field}\<close> is stored under the key
  (\<^verbatim>\<open>options or field\<close> is \<open>field\<close> for \<^verbatim>\<open>None\<close> and for the empty string);
  otherwise the dictionary that the key holds gets the key \<^verbatim>\<open>'field'\<close> when it lacks
  it, in place. The result is the state and the address of the dictionary that
  \<^verbatim>\<open>filter_fields[field]\<close> holds then.
\<close>

definition prepare_field :: "string \<Rightarrow> options \<Rightarrow> view \<Rightarrow> view \<times> nat" where
  "prepare_field field opts v =
     (case opts of
        PyNone \<Rightarrow>
          (v\<lparr>geo_spatial_filter_fields :=
               AList.update field (PyDict (length (dicts v))) (geo_spatial_filter_fields v),
             dicts := dicts v @ [\<lparr>opt_field = Some field, opt_lookups = None\<rparr>]\<rparr>,
           length (dicts v))
      | PyStr s \<Rightarrow>
          (v\<lparr>geo_spatial_filter_fields :=
               AList.update field (PyDict (length (dicts v))) (geo_spatial_filter_fields v),
             dicts := dicts v @
               [\<lparr>opt_field = Some (if s = [] then field else s), opt_lookups = None\<rparr>]\<rparr>,
           length (dicts v))
      | PyDict a \<Rightarrow>
          (if opt_field (dicts v ! a) = None
           then v\<lparr>dicts := (dicts v)[a := (dicts v ! a)\<lparr>opt_field := Some field\<rparr>]\<rparr>
           else v,
           a))"

text \<open>
  Lines 77 to 80: the dictionary at the address \<open>a\<close> gets the key \<^verbatim>\<open>'lookups'\<close> when it
  lacks it, in place.
\<close>

definition prepare_lookups :: "constants \<Rightarrow> nat \<Rightarrow> view \<Rightarrow> view" where
  "prepare_lookups K a v =
     (if opt_lookups (dicts v ! a) = None
      then v\<lparr>dicts := (dicts v)[a := (dicts v ! a)
                \<lparr>opt_lookups := Some (ALL_GEO_SPATIAL_LOOKUP_FILTERS_AND_QUERIES K)\<rparr>]\<rparr>
      else v)"

definition prepare_entry :: "constants \<Rightarrow> string \<Rightarrow> options \<Rightarrow> view \<Rightarrow> view" where
  "prepare_entry K field opts v =
     (case prepare_field field opts v of (v', a) \<Rightarrow> prepare_lookups K a v')"

text \<open>
  The loop runs over the items of the dictionary, each with the value that the
  configuration held for it at the start. The function returns the dictionary of the view,
  which it has changed in place: the result here is the view after the call.
\<close>

fun prepare_loop :: "constants \<Rightarrow> (string \<times> options) list \<Rightarrow> view \<Rightarrow> view" where
  "prepare_loop K [] v = v"
| "prepare_loop K ((field, opts) # items) v =
     prepare_loop K items (prepare_entry K field opts v)"

definition prepare_filter_fields :: "constants \<Rightarrow> view \<Rightarrow> view" where
  "prepare_filter_fields K v = prepare_loop K (geo_spatial_filter_fields v) v"

subsection \<open>get_geo_distance_params\<close>

text \<open>
  The indices 0, 1 and 2 are read only when the list has at least three components, and
  index 3 only when it has four.
\<close>

definition get_geo_distance_params :: "constants \<Rightarrow> string \<Rightarrow> string \<Rightarrow> py_error + params" where
  "get_geo_distance_params K value field =
     (case split_lookup_value K value 3 of
        Inl e \<Rightarrow> Inl e
      | Inr vs \<Rightarrow>
          (if length vs < 3 then Inr []
           else
             (let ps = AList.update field (LatLon (vs ! 1) (vs ! 2))
                         (AList.update ''distance'' (Str (vs ! 0)) [])
              in if length vs = 4
                 then Inr (AList.update ''distance_type'' (Str (vs ! 3)) ps)
                 else Inr (AList.update ''distance_type'' (Str ''sloppy_arc'') ps))))"

subsection \<open>apply_query_geo_distance\<close>

text \<open>
  The argument of \<^verbatim>\<open>queryset.query\<close>: the clause
  \<^verbatim>\<open>Q('geo_distance', **cls.get_geo_distance_params(value, options['field']))\<close>.
\<close>

definition geo_distance_clause :: "constants \<Rightarrow> string \<Rightarrow> string \<Rightarrow> py_error + es_query" where
  "geo_distance_clause K field value =
     (case get_geo_distance_params K value field of
        Inl e \<Rightarrow> Inl e
      | Inr ps \<Rightarrow> Q ''geo_distance'' ps)"

definition apply_query_geo_distance ::
  "constants \<Rightarrow> search \<Rightarrow> filter_request \<Rightarrow> string \<Rightarrow> py_error + search" where
  "apply_query_geo_distance K queryset opts value =
     (case geo_distance_clause K (fq_field opts) value of
        Inl e \<Rightarrow> Inl e
      | Inr q \<Rightarrow> Inr (search_query queryset q))"

subsection \<open>get_filter_query_params\<close>

text \<open>
  \<^verbatim>\<open>filter_fields[field_name]['lookups']\<close>: a \<^verbatim>\<open>TypeError\<close> on an entry that is
  not a dictionary, a \<^verbatim>\<open>KeyError\<close> on a dictionary without the key.
\<close>

definition getitem_lookups :: "view \<Rightarrow> options \<Rightarrow> py_error + string list" where
  "getitem_lookups v entry =
     (case entry of
        PyNone \<Rightarrow> Inl TypeError
      | PyStr s \<Rightarrow> Inl TypeError
      | PyDict a \<Rightarrow>
          (case opt_lookups (dicts v ! a) of None \<Rightarrow> Inl KeyError | Some ls \<Rightarrow> Inr ls))"

text \<open>\<^verbatim>\<open>filter_fields[field_name].get('field', field_name)\<close>, on a dictionary.\<close>

definition get_field :: "view \<Rightarrow> options \<Rightarrow> string \<Rightarrow> py_error + string" where
  "get_field v entry field_name =
     (case entry of
        PyNone \<Rightarrow> Inl TypeError
      | PyStr s \<Rightarrow> Inl TypeError
      | PyDict a \<Rightarrow>
          (case opt_field (dicts v ! a) of None \<Rightarrow> Inr field_name | Some f \<Rightarrow> Inr f))"

text \<open>
  The body of the loop over the parameter keys, in the view as
  \<^verbatim>\<open>prepare_filter_fields\<close> left it: the entry to store under \<open>query_param\<close>, or
  \<open>None\<close> when the key is skipped.
\<close>

definition get_filter_query_param ::
  "constants \<Rightarrow> request \<Rightarrow> view \<Rightarrow> string \<Rightarrow> py_error + filter_request option" where
  "get_filter_query_param K req v query_param =
     (case split_lookup_filter K query_param 1 of
        Inl e \<Rightarrow> Inl e
      | Inr query_param_list \<Rightarrow>
          (case query_param_list of
             [] \<Rightarrow> Inl IndexError
           | field_name # _ \<Rightarrow>
               (case map_of (geo_spatial_filter_fields v) field_name of
                  None \<Rightarrow> Inr None
                | Some entry \<Rightarrow>
                    (let lookup_param =
                           (if length query_param_list > 1 then Some (query_param_list ! 1)
                            else None)
                     in case getitem_lookups v entry of
                          Inl e \<Rightarrow> Inl e
                        | Inr valid_lookups \<Rightarrow>
                            (if lookup_param = None \<or> the lookup_param \<in> set valid_lookups
                             then
                               (let vals = map strip
                                      (filter (\<lambda>x. strip x \<noteq> [])
                                         (getlist (query_params req) query_param))
                                in if vals \<noteq> []
                                   then (case get_field v entry field_name of
                                           Inl e \<Rightarrow> Inl e
                                         | Inr f \<Rightarrow>
                                             Inr (Some \<lparr>fq_lookup = lookup_param,
                                                        fq_values = vals,
                                                        fq_field = f,
                                                        fq_type = mapping v\<rparr>))
                                   else Inr None)
                             else Inr None)))))"

fun get_filter_query_params_loop ::
  "constants \<Rightarrow> request \<Rightarrow> view \<Rightarrow> string list \<Rightarrow> filter_query_params
     \<Rightarrow> py_error + filter_query_params" where
  "get_filter_query_params_loop K req v [] acc = Inr acc"
| "get_filter_query_params_loop K req v (query_param # rest) acc =
     (case get_filter_query_param K req v query_param of
        Inl e \<Rightarrow> Inl e
      | Inr None \<Rightarrow> get_filter_query_params_loop K req v rest acc
      | Inr (Some r) \<Rightarrow>
          get_filter_query_params_loop K req v rest (AList.update query_param r acc))"

text \<open>
  The call of \<^verbatim>\<open>prepare_filter_fields\<close> leaves the view prepared; the result is the
  dictionary of the accepted parameters.
\<close>

definition get_filter_query_params ::
  "constants \<Rightarrow> request \<Rightarrow> view \<Rightarrow> py_error + filter_query_params" where
  "get_filter_query_params K req v =
     get_filter_query_params_loop K req (prepare_filter_fields K v)
       (map fst (query_params req)) []"

subsection \<open>filter_queryset\<close>

text \<open>The inner loop, over the values of one entry.\<close>

fun filter_queryset_values ::
  "constants \<Rightarrow> search \<Rightarrow> filter_request \<Rightarrow> string list \<Rightarrow> py_error + search" where
  "filter_queryset_values K queryset opts [] = Inr queryset"
| "filter_queryset_values K queryset opts (value # rest) =
     (if fq_lookup opts = Some (LOOKUP_FILTER_GEO_DISTANCE K)
      then (case apply_query_geo_distance K queryset opts value of
              Inl e \<Rightarrow> Inl e
            | Inr queryset' \<Rightarrow> filter_queryset_values K queryset' opts rest)
      else filter_queryset_values K queryset opts rest)"

text \<open>The outer loop, over the entries of the extracted dictionary.\<close>

fun filter_queryset_loop ::
  "constants \<Rightarrow> search \<Rightarrow> filter_request list \<Rightarrow> py_error + search" where
  "filter_queryset_loop K queryset [] = Inr queryset"
| "filter_queryset_loop K queryset (opts # rest) =
     (case filter_queryset_values K queryset opts (fq_values opts) of
        Inl e \<Rightarrow> Inl e
      | Inr queryset' \<Rightarrow> filter_queryset_loop K queryset' rest)"

definition filter_queryset :: "constants \<Rightarrow> request \<Rightarrow> search \<Rightarrow> view \<Rightarrow> py_error + search" where
  "filter_queryset K req queryset v =
     (case get_filter_query_params K req v of
        Inl e \<Rightarrow> Inl e
      | Inr filter_query_params \<Rightarrow> filter_queryset_loop K queryset (map snd filter_query_params))"

text \<open>
  Sample constants for concrete runs: the key separator is the double underscore, the
  value separator is the colon of the examples, the lookup identifier is
  \<^verbatim>\<open>geo_distance\<close>.
\<close>

definition sample_constants :: constants where
  "sample_constants =
     \<lparr>SEPARATOR_LOOKUP_FILTER = ''__'',
      SEPARATOR_LOOKUP_VALUE = '':'',
      LOOKUP_FILTER_GEO_DISTANCE = ''geo_distance'',
      ALL_GEO_SPATIAL_LOOKUP_FILTERS_AND_QUERIES = [''geo_distance'']\<rparr>"

text \<open>
  Sample inputs for concrete runs: a view with one entry of each kind, and a request with a
  geo-distance parameter of three values (one of them blank), a parameter without a lookup
  suffix, an unknown field, a lookup that is not allowed, and a parameter whose only value
  is blank.
\<close>

definition sample_view :: view where
  "sample_view =
     \<lparr>geo_spatial_filter_fields =
        [(''location'', PyDict 0), (''loc'', PyStr ''location''), (''place'', PyNone)],
      dicts = [\<lparr>opt_field = Some ''loc'', opt_lookups = Some [''geo_distance'']\<rparr>],
      mapping = ''article''\<rparr>"

definition sample_request :: request where
  "sample_request =
     \<lparr>query_params =
        [(''location__geo_distance'', [''10km:40.1:-71.2'', '' 2km:1.5:2.5:plane '', ''  '']),
         (''loc'', [''x'']),
         (''foo'', [''y'']),
         (''location__range'', [''z'']),
         (''place'', [''   ''])]\<rparr>"

text \<open>A view in which two keys hold the same, empty, dictionary object.\<close>

definition shared_view :: view where
  "shared_view =
     \<lparr>geo_spatial_filter_fields = [(''a'', PyDict 0), (''b'', PyDict 0)],
      dicts = [\<lparr>opt_field = None, opt_lookups = None\<rparr>],
      mapping = ''article''\<rparr>"

text \<open>A dictionary object that holds both keys.\<close>

definition prepared :: "field_options \<Rightarrow> bool" where
  "prepared d = (opt_field d \<noteq> None \<and> opt_lookups d \<noteq> None)"

text \<open>
  What lines 74 to 80 make of a dictionary under the key \<open>field\<close>: what it lacks is
  filled in, what it has is kept.
\<close>

definition filled :: "constants \<Rightarrow> string \<Rightarrow> field_options \<Rightarrow> field_options" where
  "filled K field d =
     \<lparr>opt_field = Some (case opt_field d of None \<Rightarrow> field | Some f \<Rightarrow> f),
      opt_lookups = Some (case opt_lookups d of
                            None \<Rightarrow> ALL_GEO_SPATIAL_LOOKUP_FILTERS_AND_QUERIES K
                          | Some ls \<Rightarrow> ls)\<rparr>"

section \<open>Properties\<close>

subsection \<open>Splitting and trimming\<close>

text \<open>
  A split has at least one component and at most \<open>maxsplit + 1\<close>; the split point
  is the leftmost occurrence of the separator, and a string without the separator is not
  split.
\<close>

lemma split_loop_nonempty: "split_loop sep n s \<noteq> []"
  by (cases n) (auto split: option.splits)

lemma length_split_loop: "length (split_loop sep n s) \<le> Suc n"
  by (induction n arbitrary: s) (auto split: option.splits)

lemma str_split_Inr: "sep \<noteq> [] \<Longrightarrow> str_split s sep n = Inr (split_loop sep n s)"
  by (simp add: str_split_def)

lemma find_sep_Some:
  "find_sep sep s = Some (a, b) \<Longrightarrow> s = a @ sep @ b"
proof (induction s arbitrary: a)
  case Nil
  then show ?case by simp
next
  case (Cons c cs)
  show ?case
  proof (cases "take (length sep) (c # cs) = sep")
    case True
    with Cons.prems have "a = []" and "b = drop (length sep) (c # cs)" by auto
    with True show ?thesis
      by (metis append_Nil append_take_drop_id)
  next
    case False
    with Cons.prems obtain a' where "find_sep sep cs = Some (a', b)" and "a = c # a'"
      by (auto split: option.splits)
    with Cons.IH show ?thesis by auto
  qed
qed

lemma find_sep_leftmost:
  "find_sep sep s = Some (a, b) \<Longrightarrow> sep \<noteq> [] \<Longrightarrow> s = a' @ sep @ b' \<Longrightarrow> length a \<le> length a'"
proof (induction s arbitrary: a a')
  case Nil
  then show ?case by simp
next
  case (Cons c cs)
  show ?case
  proof (cases "take (length sep) (c # cs) = sep")
    case True
    with Cons.prems(1) have "a = []" by simp
    then show ?thesis by simp
  next
    case False
    with Cons.prems(1) obtain a0 where a0: "find_sep sep cs = Some (a0, b)" "a = c # a0"
      by (auto split: option.splits)
    have "a' \<noteq> []"
    proof
      assume "a' = []"
      with Cons.prems(3) have "c # cs = sep @ b'" by simp
      then have "take (length sep) (c # cs) = sep" by simp
      with False show False by simp
    qed
    then obtain a1 where a1: "a' = c # a1" using Cons.prems(3) by (cases a') auto
    with Cons.prems(3) have "cs = a1 @ sep @ b'" by simp
    from Cons.IH[OF a0(1) Cons.prems(2) this] a0 a1 show ?thesis by simp
  qed
qed

lemma find_sep_None:
  "find_sep sep s = None \<Longrightarrow> sep \<noteq> [] \<Longrightarrow> s \<noteq> a @ sep @ b"
proof (induction s arbitrary: a)
  case Nil
  then show ?case by simp
next
  case (Cons c cs)
  from Cons.prems(1) have ntake: "take (length sep) (c # cs) \<noteq> sep" and rec: "find_sep sep cs = None"
    by (auto split: if_splits option.splits)
  show ?case
  proof
    assume eq: "c # cs = a @ sep @ b"
    show False
    proof (cases a)
      case Nil
      with eq have "take (length sep) (c # cs) = sep" by simp
      with ntake show False by simp
    next
      case (Cons x a1)
      with eq have "cs = a1 @ sep @ b" by simp
      with Cons.IH[OF rec Cons.prems(2)] show False by blast
    qed
  qed
qed

lemma split_loop_first:
  assumes "sep \<noteq> []"
  shows "(split_loop sep 1 s = [s] \<and> (\<forall>a b. s \<noteq> a @ sep @ b)) \<or>
         (\<exists>a b. split_loop sep 1 s = [a, b] \<and> s = a @ sep @ b \<and>
                (\<forall>a' b'. s = a' @ sep @ b' \<longrightarrow> length a \<le> length a'))"
proof (cases "find_sep sep s")
  case None
  with assms have "\<forall>a b. s \<noteq> a @ sep @ b"
    by (blast dest: find_sep_None)
  with None show ?thesis by simp
next
  case (Some p)
  obtain a b where p: "p = (a, b)" by (cases p)
  with Some have f: "find_sep sep s = Some (a, b)" by simp
  from f have "s = a @ sep @ b" by (rule find_sep_Some)
  moreover from f assms have "\<forall>a' b'. s = a' @ sep @ b' \<longrightarrow> length a \<le> length a'"
    by (blast dest: find_sep_leftmost)
  moreover from f have "split_loop sep 1 s = [a, b]" by simp
  ultimately show ?thesis by blast
qed

lemma split_loop_single_iff:
  assumes "sep \<noteq> []"
  shows "length (split_loop sep 1 s) = 1 \<longleftrightarrow> (\<forall>a b. s \<noteq> a @ sep @ b)"
  using split_loop_first[OF assms, of s] by auto

lemma split_lookup_filter_Inr:
  "split_lookup_filter K key n = Inr parts \<Longrightarrow>
     SEPARATOR_LOOKUP_FILTER K \<noteq> [] \<and> parts = split_loop (SEPARATOR_LOOKUP_FILTER K) n key \<and>
     parts \<noteq> []"
  by (auto simp: split_lookup_filter_def str_split_def split_loop_nonempty split: if_splits)

text \<open>
  \<open>strip\<close> removes a whitespace prefix and a whitespace suffix, leaves no whitespace
  at either end, and is empty exactly on the strings of whitespace only.
\<close>

lemma strip_decomp:
  "\<exists>l t. s = l @ strip s @ t \<and> (\<forall>c \<in> set l. isspace c) \<and> (\<forall>c \<in> set t. isspace c)"
proof -
  let ?d = "dropWhile isspace s"
  let ?l = "takeWhile isspace s"
  let ?t = "rev (takeWhile isspace (rev ?d))"
  have "rev (takeWhile isspace (rev ?d) @ dropWhile isspace (rev ?d)) = ?d"
    by (simp only: takeWhile_dropWhile_id rev_rev_ident)
  then have "rev (dropWhile isspace (rev ?d)) @ ?t = ?d"
    by (simp only: rev_append)
  then have d: "?d = strip s @ ?t"
    by (simp only: strip_def)
  have "s = ?l @ ?d" by simp
  with d have "s = ?l @ strip s @ ?t" by simp
  moreover have "\<forall>c \<in> set ?l. isspace c"
    by (auto dest: set_takeWhileD)
  moreover have "\<forall>c \<in> set ?t. isspace c"
    by (auto dest: set_takeWhileD)
  ultimately show ?thesis by blast
qed

lemma strip_ends:
  assumes "strip s \<noteq> []"
  shows "\<not> isspace (hd (strip s)) \<and> \<not> isspace (last (strip s))"
proof -
  let ?d = "dropWhile isspace s"
  let ?e = "dropWhile isspace (rev ?d)"
  from assms have e: "?e \<noteq> []" by (simp add: strip_def)
  then have "\<not> isspace (hd ?e)" by (rule hd_dropWhile)
  with e have last: "\<not> isspace (last (strip s))"
    by (simp add: strip_def last_rev)
  from e have dne: "?d \<noteq> []"
    by (metis dropWhile.simps(1) rev.simps(1))
  then have nd: "\<not> isspace (hd ?d)" by (rule hd_dropWhile)
  have "rev (takeWhile isspace (rev ?d) @ ?e) = ?d"
    by (simp only: takeWhile_dropWhile_id rev_rev_ident)
  then have "rev ?e @ rev (takeWhile isspace (rev ?d)) = ?d"
    by (simp only: rev_append)
  then have "?d = strip s @ rev (takeWhile isspace (rev ?d))"
    by (simp only: strip_def)
  with assms have "hd ?d = hd (strip s)"
    by (metis hd_append2)
  with nd last show ?thesis by simp
qed

lemma strip_empty_iff: "strip s = [] \<longleftrightarrow> (\<forall>c \<in> set s. isspace c)"
proof
  assume "strip s = []"
  then have "dropWhile isspace (rev (dropWhile isspace s)) = []"
    by (simp add: strip_def)
  then have "\<forall>c \<in> set (dropWhile isspace s). isspace c"
    by (simp add: dropWhile_eq_Nil_conv)
  moreover have "set s = set (takeWhile isspace s) \<union> set (dropWhile isspace s)"
    by (metis set_append takeWhile_dropWhile_id)
  ultimately show "\<forall>c \<in> set s. isspace c"
    by (auto dest: set_takeWhileD)
next
  assume "\<forall>c \<in> set s. isspace c"
  then show "strip s = []"
    by (auto simp: strip_def dest: set_dropWhileD)
qed

subsection \<open>One step of the normalization\<close>

text \<open>
  What one pass of the loop body does to the dictionary and to the store: a new object
  for \<^verbatim>\<open>None\<close> and for a string, an update in place for a dictionary. An object that
  holds both keys is never changed again, and no object is changed but the one of the
  item.
\<close>

lemma prepared_filled: "prepared (filled K field d)"
  by (simp add: prepared_def filled_def)

lemma filled_prepared: "prepared d \<Longrightarrow> filled K field d = d"
  by (cases d) (auto simp: prepared_def filled_def)

lemma prepare_entry_None:
  "prepare_entry K field PyNone v =
     v\<lparr>geo_spatial_filter_fields :=
          AList.update field (PyDict (length (dicts v))) (geo_spatial_filter_fields v),
        dicts := dicts v @
          [\<lparr>opt_field = Some field,
            opt_lookups = Some (ALL_GEO_SPATIAL_LOOKUP_FILTERS_AND_QUERIES K)\<rparr>]\<rparr>"
  by (simp add: prepare_entry_def prepare_field_def prepare_lookups_def)

lemma prepare_entry_Str:
  "prepare_entry K field (PyStr s) v =
     v\<lparr>geo_spatial_filter_fields :=
          AList.update field (PyDict (length (dicts v))) (geo_spatial_filter_fields v),
        dicts := dicts v @
          [\<lparr>opt_field = Some (if s = [] then field else s),
            opt_lookups = Some (ALL_GEO_SPATIAL_LOOKUP_FILTERS_AND_QUERIES K)\<rparr>]\<rparr>"
  by (simp add: prepare_entry_def prepare_field_def prepare_lookups_def)

lemma prepare_entry_Dict_prepared:
  "prepared (dicts v ! a) \<Longrightarrow> prepare_entry K field (PyDict a) v = v"
  by (auto simp: prepare_entry_def prepare_field_def prepare_lookups_def prepared_def)

lemma prepare_entry_Dict:
  assumes "a < length (dicts v)"
  shows "prepare_entry K field (PyDict a) v =
           v\<lparr>dicts := (dicts v)[a := filled K field (dicts v ! a)]\<rparr>"
proof (cases "prepared (dicts v ! a)")
  case True
  then show ?thesis
    by (simp add: prepare_entry_Dict_prepared filled_prepared)
next
  case False
  obtain f ls where d: "dicts v ! a = \<lparr>opt_field = f, opt_lookups = ls\<rparr>"
    by (cases "dicts v ! a") auto
  with False have "f = None \<or> ls = None"
    by (auto simp: prepared_def)
  with assms d show ?thesis
    by (auto simp: prepare_entry_def prepare_field_def prepare_lookups_def filled_def
             split: option.splits)
qed

lemma prepare_entry_Dict_entries:
  "geo_spatial_filter_fields (prepare_entry K field (PyDict a) v) = geo_spatial_filter_fields v"
  by (simp add: prepare_entry_def prepare_field_def prepare_lookups_def)

lemma prepare_entry_mapping: "mapping (prepare_entry K field opts v) = mapping v"
  by (cases opts) (simp_all add: prepare_entry_def prepare_field_def prepare_lookups_def)

lemma prepare_entry_length: "length (dicts v) \<le> length (dicts (prepare_entry K field opts v))"
  by (cases opts) (simp_all add: prepare_entry_def prepare_field_def prepare_lookups_def)

lemma prepare_entry_frozen:
  assumes "a < length (dicts v)" and "prepared (dicts v ! a)"
  shows "dicts (prepare_entry K field opts v) ! a = dicts v ! a"
proof (cases opts)
  case PyNone
  with assms(1) show ?thesis by (simp add: prepare_entry_None nth_append)
next
  case (PyStr s)
  with assms(1) show ?thesis by (simp add: prepare_entry_Str nth_append)
next
  case (PyDict b)
  show ?thesis
  proof (cases "b = a")
    case True
    with PyDict assms(2) show ?thesis by (simp add: prepare_entry_Dict_prepared)
  next
    case False
    then show ?thesis
      unfolding PyDict
      by (simp add: prepare_entry_def prepare_field_def prepare_lookups_def)
  qed
qed

lemma prepare_entry_untouched:
  assumes "a < length (dicts v)" and "opts \<noteq> PyDict a"
  shows "dicts (prepare_entry K field opts v) ! a = dicts v ! a"
proof (cases opts)
  case PyNone
  with assms(1) show ?thesis by (simp add: prepare_entry_None nth_append)
next
  case (PyStr s)
  with assms(1) show ?thesis by (simp add: prepare_entry_Str nth_append)
next
  case (PyDict b)
  with assms(2) have "b \<noteq> a" by simp
  then show ?thesis
    unfolding PyDict
    by (simp add: prepare_entry_def prepare_field_def prepare_lookups_def)
qed

lemma prepare_entry_other_key:
  "k \<noteq> field \<Longrightarrow>
     map_of (geo_spatial_filter_fields (prepare_entry K field opts v)) k =
       map_of (geo_spatial_filter_fields v) k"
  by (cases opts)
     (simp_all add: prepare_entry_None prepare_entry_Str prepare_entry_Dict_entries update_conv')

lemma prepare_entry_keys:
  "field \<in> fst ` set (geo_spatial_filter_fields v) \<Longrightarrow>
     map fst (geo_spatial_filter_fields (prepare_entry K field opts v)) =
       map fst (geo_spatial_filter_fields v)"
  by (cases opts)
     (simp_all add: prepare_entry_None prepare_entry_Str prepare_entry_Dict_entries update_keys)

subsection \<open>The loop of the normalization\<close>

lemma prepare_loop_append:
  "prepare_loop K (xs @ ys) v = prepare_loop K ys (prepare_loop K xs v)"
  by (induction xs arbitrary: v) auto

lemma prepare_loop_mapping: "mapping (prepare_loop K items v) = mapping v"
  by (induction items arbitrary: v) (auto simp: prepare_entry_mapping)

lemma prepare_loop_length: "length (dicts v) \<le> length (dicts (prepare_loop K items v))"
proof (induction items arbitrary: v)
  case Nil
  then show ?case by simp
next
  case (Cons item items)
  obtain field opts where item: "item = (field, opts)" by (cases item)
  have "length (dicts v) \<le> length (dicts (prepare_entry K field opts v))"
    by (rule prepare_entry_length)
  also have "\<dots> \<le> length (dicts (prepare_loop K items (prepare_entry K field opts v)))"
    by (rule Cons.IH)
  finally show ?case using item by simp
qed

lemma prepare_loop_frozen:
  "a < length (dicts v) \<Longrightarrow> prepared (dicts v ! a) \<Longrightarrow>
     dicts (prepare_loop K items v) ! a = dicts v ! a"
proof (induction items arbitrary: v)
  case Nil
  then show ?case by simp
next
  case (Cons item items)
  obtain field opts where item: "item = (field, opts)" by (cases item)
  let ?v = "prepare_entry K field opts v"
  have same: "dicts ?v ! a = dicts v ! a"
    using Cons.prems by (rule prepare_entry_frozen)
  have "a < length (dicts ?v)"
    using Cons.prems(1) prepare_entry_length[of v K field opts] by simp
  moreover have "prepared (dicts ?v ! a)"
    using same Cons.prems(2) by simp
  ultimately have "dicts (prepare_loop K items ?v) ! a = dicts ?v ! a"
    by (rule Cons.IH)
  with same item show ?case by simp
qed

lemma prepare_loop_untouched:
  "a < length (dicts v) \<Longrightarrow> PyDict a \<notin> snd ` set items \<Longrightarrow>
     dicts (prepare_loop K items v) ! a = dicts v ! a"
proof (induction items arbitrary: v)
  case Nil
  then show ?case by simp
next
  case (Cons item items)
  obtain field opts where item: "item = (field, opts)" by (cases item)
  let ?v = "prepare_entry K field opts v"
  from Cons.prems(2) item have ne: "opts \<noteq> PyDict a" and rest: "PyDict a \<notin> snd ` set items"
    by auto
  have same: "dicts ?v ! a = dicts v ! a"
    using Cons.prems(1) ne by (rule prepare_entry_untouched)
  have "a < length (dicts ?v)"
    using Cons.prems(1) prepare_entry_length[of v K field opts] by simp
  then have "dicts (prepare_loop K items ?v) ! a = dicts ?v ! a"
    using rest by (rule Cons.IH)
  with same item show ?case by simp
qed

lemma prepare_loop_other_key:
  "k \<notin> fst ` set items \<Longrightarrow>
     map_of (geo_spatial_filter_fields (prepare_loop K items v)) k =
       map_of (geo_spatial_filter_fields v) k"
proof (induction items arbitrary: v)
  case Nil
  then show ?case by simp
next
  case (Cons item items)
  obtain field opts where item: "item = (field, opts)" by (cases item)
  from Cons.prems item have "k \<noteq> field" and "k \<notin> fst ` set items" by auto
  with Cons.IH[of "prepare_entry K field opts v"] item show ?case
    by (simp add: prepare_entry_other_key)
qed

lemma prepare_loop_keys:
  "fst ` set items \<subseteq> fst ` set (geo_spatial_filter_fields v) \<Longrightarrow>
     map fst (geo_spatial_filter_fields (prepare_loop K items v)) =
       map fst (geo_spatial_filter_fields v)"
proof (induction items arbitrary: v)
  case Nil
  then show ?case by simp
next
  case (Cons item items)
  obtain field opts where item: "item = (field, opts)" by (cases item)
  let ?v = "prepare_entry K field opts v"
  from Cons.prems item have f: "field \<in> fst ` set (geo_spatial_filter_fields v)"
    and rest: "fst ` set items \<subseteq> fst ` set (geo_spatial_filter_fields v)"
    by auto
  have keys: "map fst (geo_spatial_filter_fields ?v) = map fst (geo_spatial_filter_fields v)"
    using f by (rule prepare_entry_keys)
  then have "fst ` set (geo_spatial_filter_fields ?v) = fst ` set (geo_spatial_filter_fields v)"
    by (metis list.set_map)
  with rest have "fst ` set items \<subseteq> fst ` set (geo_spatial_filter_fields ?v)" by simp
  from Cons.IH[OF this] keys item show ?case by simp
qed

lemma prepare_filter_fields_keys:
  "map fst (geo_spatial_filter_fields (prepare_filter_fields K v)) =
     map fst (geo_spatial_filter_fields v)"
  by (simp add: prepare_filter_fields_def prepare_loop_keys)

lemma prepare_filter_fields_mapping: "mapping (prepare_filter_fields K v) = mapping v"
  by (simp add: prepare_filter_fields_def prepare_loop_mapping)

lemma wf_viewD:
  assumes "wf_view v"
  shows "distinct (map fst (geo_spatial_filter_fields v))"
    and "(field, PyDict a) \<in> set (geo_spatial_filter_fields v) \<Longrightarrow> a < length (dicts v)"
  using assms by (auto simp: wf_view_def list_all_iff)

lemma prepare_loop_dict_key:
  "(\<And>opts. (k, opts) \<in> set items \<Longrightarrow> \<exists>a. opts = PyDict a) \<Longrightarrow>
     map_of (geo_spatial_filter_fields (prepare_loop K items v)) k =
       map_of (geo_spatial_filter_fields v) k"
proof (induction items arbitrary: v)
  case Nil
  then show ?case by simp
next
  case (Cons item items)
  obtain field opts where item: "item = (field, opts)" by (cases item)
  let ?v = "prepare_entry K field opts v"
  have step: "map_of (geo_spatial_filter_fields ?v) k = map_of (geo_spatial_filter_fields v) k"
  proof (cases "k = field")
    case True
    with Cons.prems[of opts] item obtain a where "opts = PyDict a" by auto
    then show ?thesis by (simp add: prepare_entry_Dict_entries)
  next
    case False
    then show ?thesis by (rule prepare_entry_other_key)
  qed
  have "map_of (geo_spatial_filter_fields (prepare_loop K items ?v)) k =
          map_of (geo_spatial_filter_fields ?v) k"
    using Cons.prems by (intro Cons.IH) auto
  with step item show ?case by simp
qed

text \<open>
  The entry of a key after the whole loop: the new object for \<^verbatim>\<open>None\<close> and for a
  string; for a dictionary its own object, filled under the first key that holds it.
  Every entry is then a dictionary that holds both keys, and a second pass over such
  entries changes nothing.
\<close>

lemma prepare_new_object:
  assumes ff: "geo_spatial_filter_fields v = xs @ (field, opts) # ys"
    and wf: "wf_view v"
    and new: "prepare_entry K field opts (prepare_loop K xs v) =
                (prepare_loop K xs v)
                  \<lparr>geo_spatial_filter_fields :=
                     AList.update field (PyDict (length (dicts (prepare_loop K xs v))))
                       (geo_spatial_filter_fields (prepare_loop K xs v)),
                   dicts := dicts (prepare_loop K xs v) @ [d]\<rparr>"
    and d: "prepared d"
  shows "\<exists>a. map_of (geo_spatial_filter_fields (prepare_filter_fields K v)) field =
               Some (PyDict a) \<and>
             a < length (dicts (prepare_filter_fields K v)) \<and>
             dicts (prepare_filter_fields K v) ! a = d"
proof -
  let ?v1 = "prepare_loop K xs v"
  let ?st = "prepare_entry K field opts ?v1"
  let ?n = "length (dicts ?v1)"
  have pv: "prepare_filter_fields K v = prepare_loop K ys ?st"
    by (simp add: prepare_filter_fields_def ff prepare_loop_append)
  from wf ff have "field \<notin> fst ` set ys"
    by (auto simp: wf_view_def)
  then have "map_of (geo_spatial_filter_fields (prepare_loop K ys ?st)) field =
               map_of (geo_spatial_filter_fields ?st) field"
    by (rule prepare_loop_other_key)
  also have "\<dots> = Some (PyDict ?n)"
    by (simp add: new update_conv')
  finally have entry: "map_of (geo_spatial_filter_fields (prepare_filter_fields K v)) field =
                         Some (PyDict ?n)"
    by (simp add: pv)
  have n: "?n < length (dicts ?st)" and obj: "dicts ?st ! ?n = d"
    by (simp_all add: new)
  from n obj d have "dicts (prepare_loop K ys ?st) ! ?n = dicts ?st ! ?n"
    by (intro prepare_loop_frozen) simp_all
  with obj have final: "dicts (prepare_filter_fields K v) ! ?n = d"
    by (simp add: pv)
  from n prepare_loop_length[of ?st K ys] have "?n < length (dicts (prepare_filter_fields K v))"
    by (simp add: pv)
  with entry final show ?thesis by blast
qed

lemma prepare_at_None:
  assumes "geo_spatial_filter_fields v = xs @ (field, PyNone) # ys" and "wf_view v"
  shows "\<exists>a. map_of (geo_spatial_filter_fields (prepare_filter_fields K v)) field =
               Some (PyDict a) \<and>
             a < length (dicts (prepare_filter_fields K v)) \<and>
             dicts (prepare_filter_fields K v) ! a =
               \<lparr>opt_field = Some field,
                opt_lookups = Some (ALL_GEO_SPATIAL_LOOKUP_FILTERS_AND_QUERIES K)\<rparr>"
  using assms
  by (rule prepare_new_object) (simp_all add: prepare_entry_None prepared_def)

lemma prepare_at_Str:
  assumes "geo_spatial_filter_fields v = xs @ (field, PyStr s) # ys" and "wf_view v"
  shows "\<exists>a. map_of (geo_spatial_filter_fields (prepare_filter_fields K v)) field =
               Some (PyDict a) \<and>
             a < length (dicts (prepare_filter_fields K v)) \<and>
             dicts (prepare_filter_fields K v) ! a =
               \<lparr>opt_field = Some (if s = [] then field else s),
                opt_lookups = Some (ALL_GEO_SPATIAL_LOOKUP_FILTERS_AND_QUERIES K)\<rparr>"
  using assms
  by (rule prepare_new_object) (simp_all add: prepare_entry_Str prepared_def)

lemma prepare_first_holder:
  assumes ff: "geo_spatial_filter_fields v = xs @ (field, PyDict a) # ys"
    and wf: "wf_view v"
    and first: "PyDict a \<notin> snd ` set xs"
  shows "a < length (dicts (prepare_filter_fields K v)) \<and>
         dicts (prepare_filter_fields K v) ! a = filled K field (dicts v ! a)"
proof -
  let ?v1 = "prepare_loop K xs v"
  let ?st = "prepare_entry K field (PyDict a) ?v1"
  have pv: "prepare_filter_fields K v = prepare_loop K ys ?st"
    by (simp add: prepare_filter_fields_def ff prepare_loop_append)
  from wf ff have a: "a < length (dicts v)"
    by (auto dest: wf_viewD(2))
  with prepare_loop_length[of v K xs] have a1: "a < length (dicts ?v1)" by simp
  from a first have same: "dicts ?v1 ! a = dicts v ! a"
    by (rule prepare_loop_untouched)
  from a1 have st: "?st = ?v1\<lparr>dicts := (dicts ?v1)[a := filled K field (dicts ?v1 ! a)]\<rparr>"
    by (rule prepare_entry_Dict)
  with a1 same have obj: "dicts ?st ! a = filled K field (dicts v ! a)"
    and ast: "a < length (dicts ?st)"
    by simp_all
  from ast obj have "dicts (prepare_loop K ys ?st) ! a = dicts ?st ! a"
    by (intro prepare_loop_frozen) (simp_all add: prepared_filled)
  with obj have "dicts (prepare_filter_fields K v) ! a = filled K field (dicts v ! a)"
    by (simp add: pv)
  moreover from ast prepare_loop_length[of ?st K ys]
  have "a < length (dicts (prepare_filter_fields K v))"
    by (simp add: pv)
  ultimately show ?thesis by simp
qed

lemma prepare_holder:
  assumes mem: "(field, PyDict a) \<in> set (geo_spatial_filter_fields v)" and wf: "wf_view v"
  shows "\<exists>field0. a < length (dicts (prepare_filter_fields K v)) \<and>
           dicts (prepare_filter_fields K v) ! a = filled K field0 (dicts v ! a)"
proof -
  from mem have "\<exists>e \<in> set (geo_spatial_filter_fields v). snd e = PyDict a"
    by force
  then obtain xs e ys where
    ff: "geo_spatial_filter_fields v = xs @ e # ys" and e: "snd e = PyDict a"
    and first: "\<forall>y \<in> set xs. snd y \<noteq> PyDict a"
    using split_list_first_prop[where P = "\<lambda>e. snd e = PyDict a"] by blast
  obtain field0 where "e = (field0, PyDict a)"
    using e by (cases e) auto
  with ff have ff': "geo_spatial_filter_fields v = xs @ (field0, PyDict a) # ys" by simp
  from first have "PyDict a \<notin> snd ` set xs" by auto
  with ff' wf have "a < length (dicts (prepare_filter_fields K v)) \<and>
         dicts (prepare_filter_fields K v) ! a = filled K field0 (dicts v ! a)"
    by (rule prepare_first_holder)
  then show ?thesis by blast
qed

lemma prepare_at_Dict_entry:
  assumes mem: "(field, PyDict a) \<in> set (geo_spatial_filter_fields v)" and wf: "wf_view v"
  shows "map_of (geo_spatial_filter_fields (prepare_filter_fields K v)) field = Some (PyDict a)"
proof -
  have dist: "distinct (map fst (geo_spatial_filter_fields v))"
    using wf by (rule wf_viewD(1))
  have "\<And>opts. (field, opts) \<in> set (geo_spatial_filter_fields v) \<Longrightarrow> \<exists>b. opts = PyDict b"
    using dist mem by (auto dest: eq_key_imp_eq_value)
  then have "map_of (geo_spatial_filter_fields (prepare_filter_fields K v)) field =
               map_of (geo_spatial_filter_fields v) field"
    unfolding prepare_filter_fields_def by (rule prepare_loop_dict_key)
  also from dist mem have "\<dots> = Some (PyDict a)"
    by (rule map_of_is_SomeI)
  finally show ?thesis .
qed

lemma prepare_filter_fields_prepared:
  assumes wf: "wf_view v"
    and look: "map_of (geo_spatial_filter_fields (prepare_filter_fields K v)) k = Some e"
  shows "\<exists>a. e = PyDict a \<and> a < length (dicts (prepare_filter_fields K v)) \<and>
             prepared (dicts (prepare_filter_fields K v) ! a)"
proof -
  from look have "k \<in> set (map fst (geo_spatial_filter_fields (prepare_filter_fields K v)))"
    by (metis map_of_SomeD fst_conv image_eqI list.set_map)
  then have "k \<in> fst ` set (geo_spatial_filter_fields v)"
    by (simp add: prepare_filter_fields_keys)
  then obtain opts where mem: "(k, opts) \<in> set (geo_spatial_filter_fields v)"
    by auto
  then obtain xs ys where ff: "geo_spatial_filter_fields v = xs @ (k, opts) # ys"
    by (auto dest: split_list)
  show ?thesis
  proof (cases opts)
    case PyNone
    with ff wf prepare_at_None[of v xs k ys K] look show ?thesis
      by (auto simp: prepared_def)
  next
    case (PyStr s)
    with ff wf prepare_at_Str[of v xs k s ys K] look show ?thesis
      by (auto simp: prepared_def)
  next
    case (PyDict a)
    with mem wf prepare_at_Dict_entry[of k a v K] look have e: "e = PyDict a"
      by simp
    from PyDict mem wf prepare_holder[of k a v K] obtain field0 where
      "a < length (dicts (prepare_filter_fields K v))"
      "dicts (prepare_filter_fields K v) ! a = filled K field0 (dicts v ! a)"
      by blast
    with e show ?thesis by (simp add: prepared_filled)
  qed
qed

lemma prepare_loop_id:
  "(\<And>k e. (k, e) \<in> set items \<Longrightarrow> \<exists>a. e = PyDict a \<and> prepared (dicts v ! a)) \<Longrightarrow>
     prepare_loop K items v = v"
proof (induction items)
  case Nil
  then show ?case by simp
next
  case (Cons item items)
  obtain field opts where item: "item = (field, opts)" by (cases item)
  with Cons.prems[of field opts] obtain a where "opts = PyDict a" "prepared (dicts v ! a)"
    by auto
  then have "prepare_entry K field opts v = v"
    by (simp add: prepare_entry_Dict_prepared)
  moreover have "prepare_loop K items v = v"
    using Cons.prems by (intro Cons.IH) auto
  ultimately show ?case using item by simp
qed

subsection \<open>Extraction\<close>

text \<open>
  The body of the extractor's loop: what it returns for a recognized key, what an accepted
  key has passed, which keys it skips, and that it raises nothing on prepared entries. The
  loop stores exactly the accepted keys.
\<close>

lemma get_filter_query_param_recognized:
  assumes split: "split_lookup_filter K key 1 = Inr parts"
    and entry: "map_of (geo_spatial_filter_fields v) (hd parts) = Some (PyDict a)"
    and ls: "opt_lookups (dicts v ! a) = Some ls"
    and ok: "length parts \<le> 1 \<or> parts ! 1 \<in> set ls"
  shows "get_filter_query_param K req v key =
           Inr (if filter (\<lambda>x. strip x \<noteq> []) (getlist (query_params req) key) = [] then None
                else Some \<lparr>fq_lookup = (if length parts > 1 then Some (parts ! 1) else None),
                           fq_values = map strip
                             (filter (\<lambda>x. strip x \<noteq> []) (getlist (query_params req) key)),
                           fq_field = (case opt_field (dicts v ! a) of
                                         None \<Rightarrow> hd parts | Some f \<Rightarrow> f),
                           fq_type = mapping v\<rparr>)"
proof -
  from split have "parts \<noteq> []" by (simp add: split_lookup_filter_Inr)
  then obtain field_name rest where parts: "parts = field_name # rest"
    by (cases parts) auto
  from split parts entry ls ok show ?thesis
    by (auto simp: get_filter_query_param_def getitem_lookups_def get_field_def Let_def
             split: option.splits)
qed

lemma get_filter_query_param_Some:
  assumes "get_filter_query_param K req v key = Inr (Some r)"
  shows "\<exists>parts a ls.
           split_lookup_filter K key 1 = Inr parts \<and> parts \<noteq> [] \<and>
           map_of (geo_spatial_filter_fields v) (hd parts) = Some (PyDict a) \<and>
           opt_lookups (dicts v ! a) = Some ls \<and>
           (length parts \<le> 1 \<or> parts ! 1 \<in> set ls) \<and>
           fq_lookup r = (if length parts > 1 then Some (parts ! 1) else None) \<and>
           fq_values r = map strip (filter (\<lambda>x. strip x \<noteq> []) (getlist (query_params req) key)) \<and>
           fq_values r \<noteq> [] \<and>
           fq_field r = (case opt_field (dicts v ! a) of None \<Rightarrow> hd parts | Some f \<Rightarrow> f) \<and>
           fq_type r = mapping v"
proof -
  from assms obtain parts where split: "split_lookup_filter K key 1 = Inr parts"
    by (auto simp: get_filter_query_param_def split: sum.splits)
  with assms obtain field_name rest where parts: "parts = field_name # rest"
    by (auto simp: get_filter_query_param_def split: list.splits)
  with assms split obtain entry where
    entry: "map_of (geo_spatial_filter_fields v) field_name = Some entry"
    by (auto simp: get_filter_query_param_def split: option.splits)
  with assms split parts obtain ls where "getitem_lookups v entry = Inr ls"
    by (auto simp: get_filter_query_param_def Let_def split: sum.splits)
  then obtain a where a: "entry = PyDict a" "opt_lookups (dicts v ! a) = Some ls"
    by (auto simp: getitem_lookups_def split: options.splits option.splits)
  have ok: "length parts \<le> 1 \<or> parts ! 1 \<in> set ls"
    using assms split parts entry a
    by (auto simp: get_filter_query_param_def getitem_lookups_def Let_def split: if_splits)
  from entry a parts have e: "map_of (geo_spatial_filter_fields v) (hd parts) = Some (PyDict a)"
    by simp
  from get_filter_query_param_recognized[OF split e a(2) ok, of req] assms
  have "(if filter (\<lambda>x. strip x \<noteq> []) (getlist (query_params req) key) = [] then None
                else Some \<lparr>fq_lookup = (if length parts > 1 then Some (parts ! 1) else None),
                           fq_values = map strip
                             (filter (\<lambda>x. strip x \<noteq> []) (getlist (query_params req) key)),
                           fq_field = (case opt_field (dicts v ! a) of
                                         None \<Rightarrow> hd parts | Some f \<Rightarrow> f),
                           fq_type = mapping v\<rparr>) = Some r"
    by simp
  then have "filter (\<lambda>x. strip x \<noteq> []) (getlist (query_params req) key) \<noteq> []"
    and "r = \<lparr>fq_lookup = (if length parts > 1 then Some (parts ! 1) else None),
                           fq_values = map strip
                             (filter (\<lambda>x. strip x \<noteq> []) (getlist (query_params req) key)),
                           fq_field = (case opt_field (dicts v ! a) of
                                         None \<Rightarrow> hd parts | Some f \<Rightarrow> f),
                           fq_type = mapping v\<rparr>"
    by (auto split: if_splits)
  with split parts e a(2) ok show ?thesis
    by (intro exI[of _ parts] exI[of _ a] exI[of _ ls]) simp
qed



lemma get_filter_query_param_no_suffix:
  assumes "split_lookup_filter K key 1 = Inr [key]"
    and "map_of (geo_spatial_filter_fields v) key = Some (PyDict a)"
    and "prepared (dicts v ! a)"
    and "\<exists>x \<in> set (getlist (query_params req) key). strip x \<noteq> []"
  shows "\<exists>r. get_filter_query_param K req v key = Inr (Some r) \<and> fq_lookup r = None"
proof -
  from assms(3) obtain f ls where
    d: "opt_field (dicts v ! a) = Some f" "opt_lookups (dicts v ! a) = Some ls"
    by (auto simp: prepared_def)
  from assms(4) have "filter (\<lambda>x. strip x \<noteq> []) (getlist (query_params req) key) \<noteq> []"
    by (simp add: filter_empty_conv)
  with assms(1,2) d show ?thesis
    by (simp add: get_filter_query_param_def getitem_lookups_def get_field_def Let_def)
qed

lemma get_filter_query_param_total:
  assumes "SEPARATOR_LOOKUP_FILTER K \<noteq> []"
    and "\<And>k e. map_of (geo_spatial_filter_fields v) k = Some e \<Longrightarrow>
           \<exists>a. e = PyDict a \<and> prepared (dicts v ! a)"
  shows "\<exists>r. get_filter_query_param K req v key = Inr r"
proof -
  have split: "split_lookup_filter K key 1 = Inr (split_loop (SEPARATOR_LOOKUP_FILTER K) 1 key)"
    using assms(1) by (simp add: split_lookup_filter_def str_split_def)
  obtain field_name rest where
    parts: "split_loop (SEPARATOR_LOOKUP_FILTER K) 1 key = field_name # rest"
    using split_loop_nonempty[of "SEPARATOR_LOOKUP_FILTER K" 1 key] by (auto simp: neq_Nil_conv)
  show ?thesis
  proof (cases "map_of (geo_spatial_filter_fields v) field_name")
    case None
    with split parts show ?thesis by (simp add: get_filter_query_param_def)
  next
    case (Some entry)
    from assms(2)[OF Some] obtain a f ls where
      "entry = PyDict a" "opt_field (dicts v ! a) = Some f" "opt_lookups (dicts v ! a) = Some ls"
      by (auto simp: prepared_def)
    with split parts Some show ?thesis
      by (simp add: get_filter_query_param_def getitem_lookups_def get_field_def Let_def)
  qed
qed

lemma loop_total:
  assumes "\<And>key. \<exists>r. get_filter_query_param K req v key = Inr r"
  shows "\<exists>fqp. get_filter_query_params_loop K req v keys acc = Inr fqp"
proof (induction keys arbitrary: acc)
  case Nil
  then show ?case by simp
next
  case (Cons key keys)
  from assms obtain r where "get_filter_query_param K req v key = Inr r" by blast
  with Cons.IH show ?case by (cases r) simp_all
qed

lemma loop_lookup:
  "get_filter_query_params_loop K req v keys acc = Inr fqp \<Longrightarrow>
     map_of fqp key =
       (if key \<in> set keys
        then (case get_filter_query_param K req v key of
                Inr (Some r) \<Rightarrow> Some r
              | _ \<Rightarrow> map_of acc key)
        else map_of acc key)"
proof (induction keys arbitrary: acc)
  case Nil
  then show ?case by simp
next
  case (Cons k keys)
  show ?case
  proof (cases "get_filter_query_param K req v k")
    case (Inl e)
    with Cons.prems show ?thesis by simp
  next
    case (Inr res)
    show ?thesis
    proof (cases res)
      case None
      with Inr Cons.prems have "get_filter_query_params_loop K req v keys acc = Inr fqp"
        by simp
      from Cons.IH[OF this] Inr None show ?thesis by auto
    next
      case (Some r)
      with Inr Cons.prems
      have "get_filter_query_params_loop K req v keys (AList.update k r acc) = Inr fqp"
        by simp
      from Cons.IH[OF this] Inr Some show ?thesis
        by (auto simp: update_conv' split: sum.splits option.splits)
    qed
  qed
qed

lemma loop_distinct:
  "get_filter_query_params_loop K req v keys acc = Inr fqp \<Longrightarrow>
     distinct (map fst acc) \<Longrightarrow> distinct (map fst fqp)"
proof (induction keys arbitrary: acc)
  case Nil
  then show ?case by simp
next
  case (Cons k keys)
  then show ?case
    by (auto split: sum.splits option.splits intro: distinct_update)
qed

lemma extractor_entry:
  assumes "get_filter_query_params K req v = Inr fqp"
  shows "(key, r) \<in> set fqp \<longleftrightarrow>
           key \<in> fst ` set (query_params req) \<and>
           get_filter_query_param K req (prepare_filter_fields K v) key = Inr (Some r)"
proof -
  let ?pv = "prepare_filter_fields K v"
  from assms have loop:
    "get_filter_query_params_loop K req ?pv (map fst (query_params req)) [] = Inr fqp"
    by (simp add: get_filter_query_params_def)
  have dist: "distinct (map fst fqp)"
    using loop_distinct[OF loop] by simp
  have look: "map_of fqp key =
       (if key \<in> fst ` set (query_params req)
        then (case get_filter_query_param K req ?pv key of
                Inr (Some r) \<Rightarrow> Some r
              | _ \<Rightarrow> None)
        else None)"
    using loop_lookup[OF loop, of key] by (simp split: sum.splits option.splits)
  have "(key, r) \<in> set fqp \<longleftrightarrow> map_of fqp key = Some r"
    using dist by simp
  with look show ?thesis
    by (auto split: sum.splits option.splits if_splits)
qed

lemma extractor_absent:
  assumes "get_filter_query_params K req v = Inr fqp"
    and "get_filter_query_param K req (prepare_filter_fields K v) key = Inr None"
  shows "key \<notin> fst ` set fqp"
proof
  assume "key \<in> fst ` set fqp"
  then obtain r where "(key, r) \<in> set fqp" by auto
  with assms(1) have "get_filter_query_param K req (prepare_filter_fields K v) key = Inr (Some r)"
    by (simp add: extractor_entry)
  with assms(2) show False by simp
qed

lemma extractor_total:
  assumes "SEPARATOR_LOOKUP_FILTER K \<noteq> []" and "wf_view v"
  shows "\<exists>fqp. get_filter_query_params K req v = Inr fqp"
proof -
  have "\<And>key. \<exists>r. get_filter_query_param K req (prepare_filter_fields K v) key = Inr r"
  proof (rule get_filter_query_param_total[OF assms(1)])
    fix k e
    assume "map_of (geo_spatial_filter_fields (prepare_filter_fields K v)) k = Some e"
    with assms(2) prepare_filter_fields_prepared[of v K k e]
    show "\<exists>a. e = PyDict a \<and> prepared (dicts (prepare_filter_fields K v) ! a)"
      by blast
  qed
  then show ?thesis
    unfolding get_filter_query_params_def by (rule loop_total)
qed

subsection \<open>Clause application\<close>

text \<open>
  The parser returns on every value when the value separator is not empty, its result has
  no key but \<^verbatim>\<open>distance\<close>, the target field and \<^verbatim>\<open>distance_type\<close>, and the clause
  is built unless the target field is \<^verbatim>\<open>name_or_query\<close> or \<^verbatim>\<open>self\<close>. The two loops
  of \<^verbatim>\<open>filter_queryset\<close> add the clauses in order.
\<close>

lemma params_total:
  "SEPARATOR_LOOKUP_VALUE K \<noteq> [] \<Longrightarrow> \<exists>ps. get_geo_distance_params K value field = Inr ps"
  by (simp add: get_geo_distance_params_def split_lookup_value_def str_split_def Let_def)

lemma params_keys:
  "get_geo_distance_params K value field = Inr ps \<Longrightarrow>
     set (map fst ps) \<subseteq> {''distance'', field, ''distance_type''}"
  by (auto simp: get_geo_distance_params_def Let_def split: sum.splits if_splits)

lemma clause_total:
  assumes "SEPARATOR_LOOKUP_VALUE K \<noteq> []"
    and "field \<noteq> ''name_or_query''" and "field \<noteq> ''self''"
  shows "\<exists>c. geo_distance_clause K field value = Inr c"
proof -
  from params_total[OF assms(1)] obtain ps where
    ps: "get_geo_distance_params K value field = Inr ps" by blast
  from params_keys[OF ps] assms(2,3)
  have "''name_or_query'' \<notin> set (map fst ps)" and "''self'' \<notin> set (map fst ps)"
    by auto
  with ps show ?thesis by (simp add: geo_distance_clause_def Q_def)
qed


lemma values_other:
  "fq_lookup opts \<noteq> Some (LOOKUP_FILTER_GEO_DISTANCE K) \<Longrightarrow>
     filter_queryset_values K queryset opts vs = Inr queryset"
  by (induction vs) simp_all

lemma loop_other:
  "(\<And>opts. opts \<in> set os \<Longrightarrow> fq_lookup opts \<noteq> Some (LOOKUP_FILTER_GEO_DISTANCE K)) \<Longrightarrow>
     filter_queryset_loop K queryset os = Inr queryset"
  by (induction os) (simp_all add: values_other)

lemma values_geo:
  assumes "fq_lookup opts = Some (LOOKUP_FILTER_GEO_DISTANCE K)"
  shows "(\<And>x. x \<in> set vs \<Longrightarrow> \<exists>c. geo_distance_clause K (fq_field opts) x = Inr c) \<Longrightarrow>
         filter_queryset_values K queryset opts vs =
           Inr (Search (queries queryset @
                  map (\<lambda>x. projr (geo_distance_clause K (fq_field opts) x)) vs))"
proof (induction vs arbitrary: queryset)
  case Nil
  then show ?case by (cases queryset) simp
next
  case (Cons x vs)
  from Cons.prems[of x] obtain c where c: "geo_distance_clause K (fq_field opts) x = Inr c"
    by auto
  have "filter_queryset_values K (search_query queryset c) opts vs =
          Inr (Search (queries (search_query queryset c) @
                 map (\<lambda>x. projr (geo_distance_clause K (fq_field opts) x)) vs))"
    using Cons.prems by (intro Cons.IH) auto
  with c assms show ?case
    by (simp add: apply_query_geo_distance_def search_query_def)
qed

lemma values_clauses:
  assumes "fq_lookup opts = Some (LOOKUP_FILTER_GEO_DISTANCE K) \<Longrightarrow>
             (\<forall>x \<in> set (fq_values opts). \<exists>c. geo_distance_clause K (fq_field opts) x = Inr c)"
  shows "filter_queryset_values K queryset opts (fq_values opts) =
           Inr (Search (queries queryset @
                  (if fq_lookup opts = Some (LOOKUP_FILTER_GEO_DISTANCE K)
                   then map (\<lambda>x. projr (geo_distance_clause K (fq_field opts) x)) (fq_values opts)
                   else [])))"
proof (cases "fq_lookup opts = Some (LOOKUP_FILTER_GEO_DISTANCE K)")
  case True
  with assms values_geo[OF True, of "fq_values opts" queryset] show ?thesis by simp
next
  case False
  then show ?thesis by (cases queryset) (simp add: values_other)
qed

lemma loop_clauses:
  "(\<And>opts. opts \<in> set os \<Longrightarrow> fq_lookup opts = Some (LOOKUP_FILTER_GEO_DISTANCE K) \<Longrightarrow>
      (\<forall>x \<in> set (fq_values opts). \<exists>c. geo_distance_clause K (fq_field opts) x = Inr c)) \<Longrightarrow>
   filter_queryset_loop K queryset os =
     Inr (Search (queries queryset @
            concat (map (\<lambda>opts. if fq_lookup opts = Some (LOOKUP_FILTER_GEO_DISTANCE K)
                                then map (\<lambda>x. projr (geo_distance_clause K (fq_field opts) x))
                                       (fq_values opts)
                                else []) os)))"
proof (induction os arbitrary: queryset)
  case Nil
  then show ?case by (cases queryset) simp
next
  case (Cons opts os)
  let ?cs = "if fq_lookup opts = Some (LOOKUP_FILTER_GEO_DISTANCE K)
             then map (\<lambda>x. projr (geo_distance_clause K (fq_field opts) x)) (fq_values opts)
             else []"
  have first: "filter_queryset_values K queryset opts (fq_values opts) =
                 Inr (Search (queries queryset @ ?cs))"
    using Cons.prems[of opts] by (intro values_clauses) simp
  have "filter_queryset_loop K (Search (queries queryset @ ?cs)) os =
     Inr (Search (queries (Search (queries queryset @ ?cs)) @
            concat (map (\<lambda>opts. if fq_lookup opts = Some (LOOKUP_FILTER_GEO_DISTANCE K)
                                then map (\<lambda>x. projr (geo_distance_clause K (fq_field opts) x))
                                       (fq_values opts)
                                else []) os)))"
    using Cons.prems by (intro Cons.IH) auto
  with first show ?case by simp
qed

subsection \<open>Sample runs\<close>

lemma sample_wf: "wf_view sample_view"
  by code_simp

lemma sample_prepare:
  "prepare_filter_fields sample_constants sample_view =
     \<lparr>geo_spatial_filter_fields =
        [(''location'', PyDict 0), (''loc'', PyDict 1), (''place'', PyDict 2)],
      dicts =
        [\<lparr>opt_field = Some ''loc'', opt_lookups = Some [''geo_distance'']\<rparr>,
         \<lparr>opt_field = Some ''location'', opt_lookups = Some [''geo_distance'']\<rparr>,
         \<lparr>opt_field = Some ''place'', opt_lookups = Some [''geo_distance'']\<rparr>],
      mapping = ''article''\<rparr>"
  by code_simp

lemma sample_extract:
  "get_filter_query_params sample_constants sample_request sample_view =
     Inr [(''location__geo_distance'',
           \<lparr>fq_lookup = Some ''geo_distance'',
            fq_values = [''10km:40.1:-71.2'', ''2km:1.5:2.5:plane''],
            fq_field = ''loc'', fq_type = ''article''\<rparr>),
          (''loc'',
           \<lparr>fq_lookup = None, fq_values = [''x''],
            fq_field = ''location'', fq_type = ''article''\<rparr>)]"
  by code_simp

lemma sample_extract_loc:
  "get_filter_query_params sample_constants
       \<lparr>query_params = [(''loc'', [''x'']), (''foo'', [''y''])]\<rparr> sample_view =
     Inr [(''loc'',
           \<lparr>fq_lookup = None, fq_values = [''x''],
            fq_field = ''location'', fq_type = ''article''\<rparr>)]"
  by code_simp

lemma sample_getlist:
  "getlist (query_params sample_request) ''location__geo_distance'' =
     [''10km:40.1:-71.2'', '' 2km:1.5:2.5:plane '', ''  '']"
  by code_simp

lemma sample_trimmed:
  "map strip (filter (\<lambda>x. strip x \<noteq> [])
     [''10km:40.1:-71.2'', '' 2km:1.5:2.5:plane '', ''  '']) =
   [''10km:40.1:-71.2'', ''2km:1.5:2.5:plane'']"
  by code_simp

lemma sample_clause_1:
  "geo_distance_clause sample_constants ''loc'' ''10km:40.1:-71.2'' =
     Inr (Query ''geo_distance''
            [(''distance'', Str ''10km''), (''loc'', LatLon ''40.1'' ''-71.2''),
             (''distance_type'', Str ''sloppy_arc'')])"
  by code_simp

lemma sample_clause_2:
  "geo_distance_clause sample_constants ''loc'' ''2km:1.5:2.5:plane'' =
     Inr (Query ''geo_distance''
            [(''distance'', Str ''2km''), (''loc'', LatLon ''1.5'' ''2.5''),
             (''distance_type'', Str ''plane'')])"
  by code_simp

lemma dotted_extract:
  "get_filter_query_params sample_constants
       \<lparr>query_params = [(''location__geo_distance'', [''1km:2:3''])]\<rparr>
       \<lparr>geo_spatial_filter_fields = [(''location'', PyStr ''place__loc'')],
        dicts = [], mapping = ''m''\<rparr> =
     Inr [(''location__geo_distance'',
           \<lparr>fq_lookup = Some ''geo_distance'', fq_values = [''1km:2:3''],
            fq_field = ''place__loc'', fq_type = ''m''\<rparr>)]"
  by code_simp

lemma dotted_clause:
  "geo_distance_clause sample_constants ''place__loc'' ''1km:2:3'' =
     Inr (Query ''geo_distance''
            [(''distance'', Str ''1km''), (''place.loc'', LatLon ''2'' ''3''),
             (''distance_type'', Str ''sloppy_arc'')])"
  by code_simp

section \<open>The claims\<close>

subsection \<open>C1: a value of fewer than 3 components\<close>

text \<open>
  C1, as the code has it. A value that splits into fewer than 3 components makes
  \<^verbatim>\<open>get_geo_distance_params\<close> return the empty dictionary. There is no test for
  emptiness in \<^verbatim>\<open>apply_query_geo_distance\<close>: it still builds
  \<^verbatim>\<open>Q('geo_distance')\<close>, with no parameters, and adds that clause to the builder.
\<close>

theorem short_value_empty_params:
  assumes "split_lookup_value K value 3 = Inr vs" and "length vs < 3"
  shows "get_geo_distance_params K value field = Inr [] \<and>
         apply_query_geo_distance K queryset opts value =
           Inr (search_query queryset (Query ''geo_distance'' []))"
  using assms
  by (simp add: get_geo_distance_params_def apply_query_geo_distance_def
        geo_distance_clause_def Q_def)

text \<open>The instance of C1 at the value \<^verbatim>\<open>12km:45.0\<close>, of two components.\<close>

theorem short_value_empty_params_witness:
  "get_geo_distance_params sample_constants ''12km:45.0'' ''loc'' = Inr [] \<and>
   apply_query_geo_distance sample_constants (Search [])
       \<lparr>fq_lookup = Some ''geo_distance'', fq_values = [''12km:45.0''],
        fq_field = ''loc'', fq_type = ''m''\<rparr> ''12km:45.0'' =
     Inr (search_query (Search []) (Query ''geo_distance'' []))"
proof -
  have split: "split_lookup_value sample_constants ''12km:45.0'' 3 = Inr [''12km'', ''45.0'']"
    by code_simp
  have short: "length [''12km'', ''45.0''] < 3"
    by simp
  show ?thesis
    using short_value_empty_params [OF split short] by simp
qed

text \<open>
  C1, as the claim states it, fails: the request \<^verbatim>\<open>location__geo_distance=12km:45.0\<close>
  has a value of two components, and the builder that comes back holds one clause more than
  the one that went in.
\<close>

theorem short_value_clause_counterexample:
  "split_lookup_value sample_constants ''12km:45.0'' 3 = Inr [''12km'', ''45.0''] \<and>
   filter_queryset sample_constants
       \<lparr>query_params = [(''location__geo_distance'', [''12km:45.0''])]\<rparr>
       (Search [])
       \<lparr>geo_spatial_filter_fields = [(''location'', PyDict 0)],
        dicts = [\<lparr>opt_field = Some ''loc'', opt_lookups = Some [''geo_distance'']\<rparr>],
        mapping = ''m''\<rparr>
     = Inr (Search [Query ''geo_distance'' []]) \<and>
   Search [Query ''geo_distance'' []] \<noteq> Search []"
  by code_simp

subsection \<open>C2: values of 3 and of 4 components\<close>

text \<open>
  C2, as the code has it. The target field is a key of the same dictionary as
  \<^verbatim>\<open>'distance'\<close> and \<^verbatim>\<open>'distance_type'\<close>. When it differs from both, a value of
  exactly 3 components gives the three entries with the type \<^verbatim>\<open>sloppy_arc\<close>, and a
  value of exactly 4 components gives them with the fourth component as the type.
\<close>

theorem geo_distance_params_three_or_four:
  assumes "field \<noteq> ''distance''" and "field \<noteq> ''distance_type''"
    and "split_lookup_value K value 3 = Inr vs"
  shows "(length vs = 3 \<longrightarrow>
            get_geo_distance_params K value field =
              Inr [(''distance'', Str (vs ! 0)), (field, LatLon (vs ! 1) (vs ! 2)),
                   (''distance_type'', Str ''sloppy_arc'')]) \<and>
         (length vs = 4 \<longrightarrow>
            get_geo_distance_params K value field =
              Inr [(''distance'', Str (vs ! 0)), (field, LatLon (vs ! 1) (vs ! 2)),
                   (''distance_type'', Str (vs ! 3))])"
  using assms by (auto simp: get_geo_distance_params_def)

text \<open>
  The instances of C2 at \<^verbatim>\<open>12km:45.0:-70.0\<close> and \<^verbatim>\<open>12km:45.0:-70.0:plane\<close>,
  for the target field \<^verbatim>\<open>loc\<close>.
\<close>

theorem geo_distance_params_three_or_four_witness:
  "get_geo_distance_params sample_constants ''12km:45.0:-70.0'' ''loc'' =
     Inr [(''distance'', Str ''12km''), (''loc'', LatLon ''45.0'' ''-70.0''),
          (''distance_type'', Str ''sloppy_arc'')] \<and>
   get_geo_distance_params sample_constants ''12km:45.0:-70.0:plane'' ''loc'' =
     Inr [(''distance'', Str ''12km''), (''loc'', LatLon ''45.0'' ''-70.0''),
          (''distance_type'', Str ''plane'')]"
proof -
  have f1: "''loc'' \<noteq> ''distance''" and f2: "''loc'' \<noteq> ''distance_type''"
    by simp_all
  have s3: "split_lookup_value sample_constants ''12km:45.0:-70.0'' 3 =
              Inr [''12km'', ''45.0'', ''-70.0'']"
    by code_simp
  have s4: "split_lookup_value sample_constants ''12km:45.0:-70.0:plane'' 3 =
              Inr [''12km'', ''45.0'', ''-70.0'', ''plane'']"
    by code_simp
  show ?thesis
    using geo_distance_params_three_or_four [OF f1 f2 s3]
      geo_distance_params_three_or_four [OF f1 f2 s4]
    by simp
qed

text \<open>
  C2, as the claim states it, fails for a target field named \<^verbatim>\<open>distance\<close>: the value
  has exactly 3 components, the point is stored under the key that held the distance, and
  the result has two entries, none of them the first component.
\<close>

theorem geo_distance_params_field_clash_counterexample:
  "split_lookup_value sample_constants ''12km:45.0:-70.0'' 3 =
     Inr [''12km'', ''45.0'', ''-70.0''] \<and>
   get_geo_distance_params sample_constants ''12km:45.0:-70.0'' ''distance'' =
     Inr [(''distance'', LatLon ''45.0'' ''-70.0''), (''distance_type'', Str ''sloppy_arc'')] \<and>
   map_of [(''distance'', LatLon ''45.0'' ''-70.0''), (''distance_type'', Str ''sloppy_arc'')]
       ''distance'' \<noteq> Some (Str ''12km'')"
  by code_simp

subsection \<open>C3: lookups other than geo-distance\<close>

text \<open>
  C3. For every entry of the extractor's output whose lookup is not the geo-distance
  identifier, the loop of \<^verbatim>\<open>filter_queryset\<close> over its values returns any builder as
  it received it; and when no entry has the geo-distance lookup, \<^verbatim>\<open>filter_queryset\<close>
  returns the builder it was given.
\<close>

theorem filter_queryset_other_lookups_inert:
  assumes "get_filter_query_params K req v = Inr fqp"
  shows "(\<forall>(key, opts) \<in> set fqp.
            fq_lookup opts \<noteq> Some (LOOKUP_FILTER_GEO_DISTANCE K) \<longrightarrow>
            (\<forall>qs. filter_queryset_values K qs opts (fq_values opts) = Inr qs)) \<and>
         ((\<forall>(key, opts) \<in> set fqp. fq_lookup opts \<noteq> Some (LOOKUP_FILTER_GEO_DISTANCE K)) \<longrightarrow>
            filter_queryset K req queryset v = Inr queryset)"
proof (intro conjI impI)
  show "\<forall>(key, opts) \<in> set fqp.
            fq_lookup opts \<noteq> Some (LOOKUP_FILTER_GEO_DISTANCE K) \<longrightarrow>
            (\<forall>qs. filter_queryset_values K qs opts (fq_values opts) = Inr qs)"
    by (auto simp: values_other)
next
  assume none: "\<forall>(key, opts) \<in> set fqp. fq_lookup opts \<noteq> Some (LOOKUP_FILTER_GEO_DISTANCE K)"
  have "filter_queryset_loop K queryset (map snd fqp) = Inr queryset"
  proof (rule loop_other)
    fix opts assume "opts \<in> set (map snd fqp)"
    with none show "fq_lookup opts \<noteq> Some (LOOKUP_FILTER_GEO_DISTANCE K)" by auto
  qed
  with assms show "filter_queryset K req queryset v = Inr queryset"
    by (simp add: filter_queryset_def)
qed

text \<open>
  The instance of C3 at a request whose only recognized parameter, \<^verbatim>\<open>loc=x\<close>, has no
  lookup.
\<close>

theorem filter_queryset_other_lookups_inert_witness:
  "filter_queryset_values sample_constants (Search [Query ''match_all'' []])
       \<lparr>fq_lookup = None, fq_values = [''x''], fq_field = ''location'', fq_type = ''article''\<rparr>
       [''x''] = Inr (Search [Query ''match_all'' []]) \<and>
   filter_queryset sample_constants \<lparr>query_params = [(''loc'', [''x'']), (''foo'', [''y''])]\<rparr>
       (Search [Query ''match_all'' []]) sample_view = Inr (Search [Query ''match_all'' []])"
  using filter_queryset_other_lookups_inert
          [OF sample_extract_loc, of "Search [Query ''match_all'' []]"]
  by (simp add: sample_constants_def)

subsection \<open>C4: the keys that the extractor admits\<close>

text \<open>
  C4. Every key of the extractor's output is either free of the separator or splits at its
  leftmost separator into a field name and a suffix; the field name (the whole key when
  there is no separator) is configured, and a suffix, when there is one, is among the
  lookups of that field's prepared entry. A key that fails either condition is therefore
  not in the output.
\<close>

theorem extractor_gate:
  assumes "get_filter_query_params K req v = Inr fqp" and "(key, r) \<in> set fqp"
  shows "\<exists>parts a ls.
           split_lookup_filter K key 1 = Inr parts \<and>
           ((parts = [key] \<and> (\<forall>a b. key \<noteq> a @ SEPARATOR_LOOKUP_FILTER K @ b)) \<or>
            (\<exists>suffix. parts = [hd parts, suffix] \<and>
               key = hd parts @ SEPARATOR_LOOKUP_FILTER K @ suffix \<and>
               (\<forall>a b. key = a @ SEPARATOR_LOOKUP_FILTER K @ b \<longrightarrow>
                      length (hd parts) \<le> length a))) \<and>
           hd parts \<in> fst ` set (geo_spatial_filter_fields v) \<and>
           map_of (geo_spatial_filter_fields (prepare_filter_fields K v)) (hd parts) =
             Some (PyDict a) \<and>
           opt_lookups (dicts (prepare_filter_fields K v) ! a) = Some ls \<and>
           (length parts \<le> 1 \<or> parts ! 1 \<in> set ls)"
proof -
  let ?pv = "prepare_filter_fields K v"
  from assms have body: "get_filter_query_param K req ?pv key = Inr (Some r)"
    by (simp add: extractor_entry)
  from get_filter_query_param_Some[OF body] obtain parts a ls where
    p: "split_lookup_filter K key 1 = Inr parts" "parts \<noteq> []"
       "map_of (geo_spatial_filter_fields ?pv) (hd parts) = Some (PyDict a)"
       "opt_lookups (dicts ?pv ! a) = Some ls" "length parts \<le> 1 \<or> parts ! 1 \<in> set ls"
    by blast
  from p(1) have sep: "SEPARATOR_LOOKUP_FILTER K \<noteq> []"
    and parts: "parts = split_loop (SEPARATOR_LOOKUP_FILTER K) 1 key"
    using split_lookup_filter_Inr[of K key 1 parts] by blast+
  have shape: "(parts = [key] \<and> (\<forall>a b. key \<noteq> a @ SEPARATOR_LOOKUP_FILTER K @ b)) \<or>
            (\<exists>suffix. parts = [hd parts, suffix] \<and>
               key = hd parts @ SEPARATOR_LOOKUP_FILTER K @ suffix \<and>
               (\<forall>a b. key = a @ SEPARATOR_LOOKUP_FILTER K @ b \<longrightarrow>
                      length (hd parts) \<le> length a))"
  proof -
    have "(parts = [key] \<and> (\<forall>a b. key \<noteq> a @ SEPARATOR_LOOKUP_FILTER K @ b)) \<or>
          (\<exists>a b. parts = [a, b] \<and> key = a @ SEPARATOR_LOOKUP_FILTER K @ b \<and>
                 (\<forall>a' b'. key = a' @ SEPARATOR_LOOKUP_FILTER K @ b' \<longrightarrow>
                          length a \<le> length a'))"
      unfolding parts by (rule split_loop_first[OF sep])
    then show ?thesis
    proof (elim disjE exE conjE)
      assume "parts = [key]" and "\<forall>a b. key \<noteq> a @ SEPARATOR_LOOKUP_FILTER K @ b"
      then show ?thesis by blast
    next
      fix a b
      assume ab: "parts = [a, b]" "key = a @ SEPARATOR_LOOKUP_FILTER K @ b"
        and least: "\<forall>a' b'. key = a' @ SEPARATOR_LOOKUP_FILTER K @ b' \<longrightarrow>
                          length a \<le> length a'"
      from ab have "parts = [hd parts, b]" and "key = hd parts @ SEPARATOR_LOOKUP_FILTER K @ b"
        by simp_all
      moreover from ab(1) least
      have "\<forall>a' b'. key = a' @ SEPARATOR_LOOKUP_FILTER K @ b' \<longrightarrow>
                          length (hd parts) \<le> length a'"
        by simp
      ultimately show ?thesis by blast
    qed
  qed
  from p(3) have "hd parts \<in> set (map fst (geo_spatial_filter_fields ?pv))"
    by (metis map_of_SomeD fst_conv image_eqI list.set_map)
  then have conf: "hd parts \<in> fst ` set (geo_spatial_filter_fields v)"
    by (simp add: prepare_filter_fields_keys)
  from p shape conf show ?thesis by blast
qed

text \<open>The instance of C4 at the key \<^verbatim>\<open>location__geo_distance\<close> of the sample request.\<close>

theorem extractor_gate_witness:
  "\<exists>parts a ls.
     split_lookup_filter sample_constants ''location__geo_distance'' 1 = Inr parts \<and>
     ((parts = [''location__geo_distance''] \<and>
       (\<forall>a b. ''location__geo_distance'' \<noteq> a @ SEPARATOR_LOOKUP_FILTER sample_constants @ b)) \<or>
      (\<exists>suffix. parts = [hd parts, suffix] \<and>
         ''location__geo_distance'' =
           hd parts @ SEPARATOR_LOOKUP_FILTER sample_constants @ suffix \<and>
         (\<forall>a b. ''location__geo_distance'' = a @ SEPARATOR_LOOKUP_FILTER sample_constants @ b \<longrightarrow>
                length (hd parts) \<le> length a))) \<and>
     hd parts \<in> fst ` set (geo_spatial_filter_fields sample_view) \<and>
     map_of (geo_spatial_filter_fields (prepare_filter_fields sample_constants sample_view))
       (hd parts) = Some (PyDict a) \<and>
     opt_lookups (dicts (prepare_filter_fields sample_constants sample_view) ! a) = Some ls \<and>
     (length parts \<le> 1 \<or> parts ! 1 \<in> set ls)"
proof -
  have "(''location__geo_distance'',
           \<lparr>fq_lookup = Some ''geo_distance'',
            fq_values = [''10km:40.1:-71.2'', ''2km:1.5:2.5:plane''],
            fq_field = ''loc'', fq_type = ''article''\<rparr>) \<in>
        set [(''location__geo_distance'',
           \<lparr>fq_lookup = Some ''geo_distance'',
            fq_values = [''10km:40.1:-71.2'', ''2km:1.5:2.5:plane''],
            fq_field = ''loc'', fq_type = ''article''\<rparr>),
          (''loc'',
           \<lparr>fq_lookup = None, fq_values = [''x''],
            fq_field = ''location'', fq_type = ''article''\<rparr>)]"
    by simp
  from extractor_gate [OF sample_extract this] show ?thesis .
qed

subsection \<open>C5: trimmed values\<close>

text \<open>
  C5. On a well-formed view and with a non-empty key separator the extractor returns its
  dictionary, and in it: the values of every entry are the raw values of its key, each
  trimmed, without those that are empty after trimming, in their order, and the list is
  not empty and holds no empty string; a recognized parameter (its key is in the request,
  its field name is configured and its suffix, if there is one, is allowed) is in the
  output with exactly those values when one of its raw values is not blank, and absent
  when all are; and any key whose raw values are all whitespace is absent.
\<close>

theorem extractor_values_trimmed:
  assumes "wf_view v" and "SEPARATOR_LOOKUP_FILTER K \<noteq> []"
  shows "\<exists>fqp. get_filter_query_params K req v = Inr fqp \<and>
           (\<forall>(key, r) \<in> set fqp.
              fq_values r =
                map strip (filter (\<lambda>x. strip x \<noteq> []) (getlist (query_params req) key)) \<and>
              fq_values r \<noteq> [] \<and> [] \<notin> set (fq_values r)) \<and>
           (\<forall>key parts a ls.
              key \<in> fst ` set (query_params req) \<and>
              split_lookup_filter K key 1 = Inr parts \<and>
              map_of (geo_spatial_filter_fields (prepare_filter_fields K v)) (hd parts) =
                Some (PyDict a) \<and>
              opt_lookups (dicts (prepare_filter_fields K v) ! a) = Some ls \<and>
              (length parts \<le> 1 \<or> parts ! 1 \<in> set ls) \<longrightarrow>
              (if filter (\<lambda>x. strip x \<noteq> []) (getlist (query_params req) key) = []
               then key \<notin> fst ` set fqp
               else \<exists>r. (key, r) \<in> set fqp \<and>
                        fq_values r =
                          map strip
                            (filter (\<lambda>x. strip x \<noteq> []) (getlist (query_params req) key)))) \<and>
           (\<forall>key. (\<forall>x \<in> set (getlist (query_params req) key). \<forall>c \<in> set x. isspace c) \<longrightarrow>
                  key \<notin> fst ` set fqp)"
proof -
  let ?pv = "prepare_filter_fields K v"
  let ?vals = "\<lambda>key. filter (\<lambda>x. strip x \<noteq> []) (getlist (query_params req) key)"
  from extractor_total[OF assms(2,1), of req] obtain fqp where
    fqp: "get_filter_query_params K req v = Inr fqp" by blast
  have A: "\<forall>(key, r) \<in> set fqp.
              fq_values r = map strip (?vals key) \<and>
              fq_values r \<noteq> [] \<and> [] \<notin> set (fq_values r)"
  proof (clarify, intro conjI)
    fix key r assume "(key, r) \<in> set fqp"
    with fqp have body: "get_filter_query_param K req ?pv key = Inr (Some r)"
      by (simp add: extractor_entry)
    from get_filter_query_param_Some[OF body]
    show vals: "fq_values r = map strip (?vals key)" and "fq_values r \<noteq> []"
      by blast+
    show "[] \<notin> set (fq_values r)"
      unfolding vals by auto
  qed
  have B: "\<forall>key parts a ls.
              key \<in> fst ` set (query_params req) \<and>
              split_lookup_filter K key 1 = Inr parts \<and>
              map_of (geo_spatial_filter_fields ?pv) (hd parts) = Some (PyDict a) \<and>
              opt_lookups (dicts ?pv ! a) = Some ls \<and>
              (length parts \<le> 1 \<or> parts ! 1 \<in> set ls) \<longrightarrow>
              (if ?vals key = [] then key \<notin> fst ` set fqp
               else \<exists>r. (key, r) \<in> set fqp \<and> fq_values r = map strip (?vals key))"
  proof (intro allI impI, elim conjE)
    fix key parts a ls
    assume key: "key \<in> fst ` set (query_params req)"
      and split: "split_lookup_filter K key 1 = Inr parts"
      and entry: "map_of (geo_spatial_filter_fields ?pv) (hd parts) = Some (PyDict a)"
      and ls: "opt_lookups (dicts ?pv ! a) = Some ls"
      and ok: "length parts \<le> 1 \<or> parts ! 1 \<in> set ls"
    note body = get_filter_query_param_recognized[OF split entry ls ok, of req]
    show "if ?vals key = [] then key \<notin> fst ` set fqp
          else \<exists>r. (key, r) \<in> set fqp \<and> fq_values r = map strip (?vals key)"
    proof (cases "?vals key = []")
      case True
      with body have "get_filter_query_param K req ?pv key = Inr None" by simp
      with fqp have "key \<notin> fst ` set fqp" by (rule extractor_absent)
      with True show ?thesis by simp
    next
      case False
      with body obtain r where
        r: "get_filter_query_param K req ?pv key = Inr (Some r)"
           "fq_values r = map strip (?vals key)"
        by simp
      with key fqp have "(key, r) \<in> set fqp" by (simp add: extractor_entry)
      with r(2) False show ?thesis by auto
    qed
  qed
  have C: "\<forall>key. (\<forall>x \<in> set (getlist (query_params req) key). \<forall>c \<in> set x. isspace c) \<longrightarrow>
                  key \<notin> fst ` set fqp"
  proof (intro allI impI notI)
    fix key
    assume blank: "\<forall>x \<in> set (getlist (query_params req) key). \<forall>c \<in> set x. isspace c"
      and "key \<in> fst ` set fqp"
    then obtain r where "(key, r) \<in> set fqp" by auto
    with A have "map strip (?vals key) \<noteq> []" by fastforce
    then obtain x where "x \<in> set (getlist (query_params req) key)" "strip x \<noteq> []"
      by (auto simp: filter_empty_conv)
    with blank show False by (simp add: strip_empty_iff)
  qed
  from fqp A B C show ?thesis by blast
qed

text \<open>
  The instance of C5 at the sample request: the extractor returns the geo-distance
  parameter with two of its three values, trimmed, and leaves out the key \<^verbatim>\<open>place\<close>,
  whose only value is blank.
\<close>

theorem extractor_values_trimmed_witness:
  "\<exists>fqp r. get_filter_query_params sample_constants sample_request sample_view = Inr fqp \<and>
     (''location__geo_distance'', r) \<in> set fqp \<and>
     fq_values r = [''10km:40.1:-71.2'', ''2km:1.5:2.5:plane''] \<and>
     ''place'' \<notin> fst ` set fqp"
proof -
  have sep: "SEPARATOR_LOOKUP_FILTER sample_constants \<noteq> []"
    by (simp add: sample_constants_def)
  from extractor_values_trimmed [OF sample_wf sep, of sample_request] obtain fqp where
    fqp: "get_filter_query_params sample_constants sample_request sample_view = Inr fqp"
    and emit: "\<forall>key parts a ls.
              key \<in> fst ` set (query_params sample_request) \<and>
              split_lookup_filter sample_constants key 1 = Inr parts \<and>
              map_of (geo_spatial_filter_fields
                        (prepare_filter_fields sample_constants sample_view)) (hd parts) =
                Some (PyDict a) \<and>
              opt_lookups (dicts (prepare_filter_fields sample_constants sample_view) ! a) =
                Some ls \<and>
              (length parts \<le> 1 \<or> parts ! 1 \<in> set ls) \<longrightarrow>
              (if filter (\<lambda>x. strip x \<noteq> []) (getlist (query_params sample_request) key) = []
               then key \<notin> fst ` set fqp
               else \<exists>r. (key, r) \<in> set fqp \<and>
                        fq_values r =
                          map strip (filter (\<lambda>x. strip x \<noteq> [])
                            (getlist (query_params sample_request) key)))"
    and blank: "\<forall>key. (\<forall>x \<in> set (getlist (query_params sample_request) key).
                         \<forall>c \<in> set x. isspace c) \<longrightarrow> key \<notin> fst ` set fqp"
    by blast
  have key: "''location__geo_distance'' \<in> fst ` set (query_params sample_request)"
    by (simp add: sample_request_def)
  have split: "split_lookup_filter sample_constants ''location__geo_distance'' 1 =
                 Inr [''location'', ''geo_distance'']"
    by code_simp
  have entry: "map_of (geo_spatial_filter_fields
                         (prepare_filter_fields sample_constants sample_view))
                 (hd [''location'', ''geo_distance'']) = Some (PyDict 0)"
    by (simp add: sample_prepare)
  have ls: "opt_lookups (dicts (prepare_filter_fields sample_constants sample_view) ! 0) =
              Some [''geo_distance'']"
    by (simp add: sample_prepare)
  have ok: "length [''location'', ''geo_distance''] \<le> 1 \<or>
            [''location'', ''geo_distance''] ! 1 \<in> set [''geo_distance'']"
    by simp
  from emit key split entry ls ok
  have "if filter (\<lambda>x. strip x \<noteq> [])
             (getlist (query_params sample_request) ''location__geo_distance'') = []
        then ''location__geo_distance'' \<notin> fst ` set fqp
        else \<exists>r. (''location__geo_distance'', r) \<in> set fqp \<and>
                 fq_values r =
                   map strip (filter (\<lambda>x. strip x \<noteq> [])
                     (getlist (query_params sample_request) ''location__geo_distance''))"
    by blast
  then obtain r where r: "(''location__geo_distance'', r) \<in> set fqp"
    "fq_values r = [''10km:40.1:-71.2'', ''2km:1.5:2.5:plane'']"
    unfolding sample_getlist sample_trimmed[symmetric]
    using sample_trimmed by (auto split: if_splits)
  have "\<forall>x \<in> set (getlist (query_params sample_request) ''place''). \<forall>c \<in> set x. isspace c"
    by (simp add: sample_request_def getlist_def isspace_def)
  with blank have "''place'' \<notin> fst ` set fqp" by blast
  with fqp r show ?thesis by blast
qed

subsection \<open>C6: normalization of an entry\<close>

text \<open>
  C6, as the code has it. In a well-formed view normalization keeps every key, in order.
  An entry \<^verbatim>\<open>None\<close> becomes a dictionary with the key itself as target field and all the
  supported lookups; a string entry becomes the same with the string as target field, or
  the key when the string is empty. A dictionary entry keeps its object; lookups that the
  object lacks are filled with all the supported lookups; a target field that it lacks is
  filled with the key, provided that no earlier entry holds the same object.
\<close>

theorem prepare_filter_fields_entries:
  assumes "wf_view v" and "geo_spatial_filter_fields v = xs @ (field, opts) # ys"
  shows "map fst (geo_spatial_filter_fields (prepare_filter_fields K v)) =
           map fst (geo_spatial_filter_fields v) \<and>
         (opts = PyNone \<longrightarrow>
            (\<exists>a. map_of (geo_spatial_filter_fields (prepare_filter_fields K v)) field =
                    Some (PyDict a) \<and>
                  a < length (dicts (prepare_filter_fields K v)) \<and>
                  dicts (prepare_filter_fields K v) ! a =
                    \<lparr>opt_field = Some field,
                     opt_lookups = Some (ALL_GEO_SPATIAL_LOOKUP_FILTERS_AND_QUERIES K)\<rparr>)) \<and>
         (\<forall>s. opts = PyStr s \<longrightarrow>
            (\<exists>a. map_of (geo_spatial_filter_fields (prepare_filter_fields K v)) field =
                    Some (PyDict a) \<and>
                  a < length (dicts (prepare_filter_fields K v)) \<and>
                  dicts (prepare_filter_fields K v) ! a =
                    \<lparr>opt_field = Some (if s = [] then field else s),
                     opt_lookups = Some (ALL_GEO_SPATIAL_LOOKUP_FILTERS_AND_QUERIES K)\<rparr>)) \<and>
         (\<forall>a. opts = PyDict a \<longrightarrow>
            map_of (geo_spatial_filter_fields (prepare_filter_fields K v)) field =
              Some (PyDict a) \<and>
            a < length (dicts (prepare_filter_fields K v)) \<and>
            opt_lookups (dicts (prepare_filter_fields K v) ! a) =
              Some (case opt_lookups (dicts v ! a) of
                      None \<Rightarrow> ALL_GEO_SPATIAL_LOOKUP_FILTERS_AND_QUERIES K
                    | Some ls \<Rightarrow> ls) \<and>
            (PyDict a \<notin> snd ` set xs \<longrightarrow>
               opt_field (dicts (prepare_filter_fields K v) ! a) =
                 Some (case opt_field (dicts v ! a) of None \<Rightarrow> field | Some f \<Rightarrow> f)))"
proof (intro conjI allI impI)
  show "map fst (geo_spatial_filter_fields (prepare_filter_fields K v)) =
           map fst (geo_spatial_filter_fields v)"
    by (rule prepare_filter_fields_keys)
next
  assume "opts = PyNone"
  with assms show "\<exists>a. map_of (geo_spatial_filter_fields (prepare_filter_fields K v)) field =
                    Some (PyDict a) \<and>
                  a < length (dicts (prepare_filter_fields K v)) \<and>
                  dicts (prepare_filter_fields K v) ! a =
                    \<lparr>opt_field = Some field,
                     opt_lookups = Some (ALL_GEO_SPATIAL_LOOKUP_FILTERS_AND_QUERIES K)\<rparr>"
    by (intro prepare_at_None) simp_all
next
  fix s assume "opts = PyStr s"
  with assms show "\<exists>a. map_of (geo_spatial_filter_fields (prepare_filter_fields K v)) field =
                    Some (PyDict a) \<and>
                  a < length (dicts (prepare_filter_fields K v)) \<and>
                  dicts (prepare_filter_fields K v) ! a =
                    \<lparr>opt_field = Some (if s = [] then field else s),
                     opt_lookups = Some (ALL_GEO_SPATIAL_LOOKUP_FILTERS_AND_QUERIES K)\<rparr>"
    by (intro prepare_at_Str) simp_all
next
  fix a assume a: "opts = PyDict a"
  with assms(2) have mem: "(field, PyDict a) \<in> set (geo_spatial_filter_fields v)"
    by simp
  from mem assms(1)
  show "map_of (geo_spatial_filter_fields (prepare_filter_fields K v)) field = Some (PyDict a)"
    by (rule prepare_at_Dict_entry)
  from prepare_holder[OF mem assms(1), of K] obtain field0 where
    h: "a < length (dicts (prepare_filter_fields K v))"
       "dicts (prepare_filter_fields K v) ! a = filled K field0 (dicts v ! a)"
    by blast
  from h(1) show "a < length (dicts (prepare_filter_fields K v))" .
  from h(2) show "opt_lookups (dicts (prepare_filter_fields K v) ! a) =
              Some (case opt_lookups (dicts v ! a) of
                      None \<Rightarrow> ALL_GEO_SPATIAL_LOOKUP_FILTERS_AND_QUERIES K
                    | Some ls \<Rightarrow> ls)"
    by (simp add: filled_def)
next
  fix a assume a: "opts = PyDict a" and first: "PyDict a \<notin> snd ` set xs"
  from assms(2) a have "geo_spatial_filter_fields v = xs @ (field, PyDict a) # ys" by simp
  from prepare_first_holder[OF this assms(1) first, of K]
  show "opt_field (dicts (prepare_filter_fields K v) ! a) =
                 Some (case opt_field (dicts v ! a) of None \<Rightarrow> field | Some f \<Rightarrow> f)"
    by (simp add: filled_def)
qed

text \<open>
  The instances of C6 at the three entries of the sample view: a dictionary, a string and
  \<^verbatim>\<open>None\<close>.
\<close>

theorem prepare_filter_fields_entries_witness:
  "map fst (geo_spatial_filter_fields (prepare_filter_fields sample_constants sample_view)) =
     [''location'', ''loc'', ''place''] \<and>
   map_of (geo_spatial_filter_fields (prepare_filter_fields sample_constants sample_view))
     ''location'' = Some (PyDict 0) \<and>
   dicts (prepare_filter_fields sample_constants sample_view) ! 0 =
     \<lparr>opt_field = Some ''loc'', opt_lookups = Some [''geo_distance'']\<rparr> \<and>
   (\<exists>a. map_of (geo_spatial_filter_fields (prepare_filter_fields sample_constants sample_view))
          ''loc'' = Some (PyDict a) \<and>
        dicts (prepare_filter_fields sample_constants sample_view) ! a =
          \<lparr>opt_field = Some ''location'', opt_lookups = Some [''geo_distance'']\<rparr>) \<and>
   (\<exists>a. map_of (geo_spatial_filter_fields (prepare_filter_fields sample_constants sample_view))
          ''place'' = Some (PyDict a) \<and>
        dicts (prepare_filter_fields sample_constants sample_view) ! a =
          \<lparr>opt_field = Some ''place'', opt_lookups = Some [''geo_distance'']\<rparr>)"
proof -
  have f1: "geo_spatial_filter_fields sample_view =
              [] @ (''location'', PyDict 0) # [(''loc'', PyStr ''location''), (''place'', PyNone)]"
    and f2: "geo_spatial_filter_fields sample_view =
              [(''location'', PyDict 0)] @ (''loc'', PyStr ''location'') # [(''place'', PyNone)]"
    and f3: "geo_spatial_filter_fields sample_view =
              [(''location'', PyDict 0), (''loc'', PyStr ''location'')] @ (''place'', PyNone) # []"
    by (simp_all add: sample_view_def)
  have first: "PyDict 0 \<notin> snd ` set ([] :: (string \<times> options) list)"
    by simp
  have obj: "dicts sample_view ! 0 =
               \<lparr>opt_field = Some ''loc'', opt_lookups = Some [''geo_distance'']\<rparr>"
    by (simp add: sample_view_def)
  have keys: "map fst (geo_spatial_filter_fields sample_view) = [''location'', ''loc'', ''place'']"
    by (simp add: sample_view_def)
  have all: "ALL_GEO_SPATIAL_LOOKUP_FILTERS_AND_QUERIES sample_constants = [''geo_distance'']"
    by (simp add: sample_constants_def)
  from prepare_filter_fields_entries [OF sample_wf f1, of sample_constants] first obj keys
  have c1: "map fst (geo_spatial_filter_fields (prepare_filter_fields sample_constants sample_view)) =
              [''location'', ''loc'', ''place'']"
    and c2: "map_of (geo_spatial_filter_fields (prepare_filter_fields sample_constants sample_view))
              ''location'' = Some (PyDict 0)"
    and c3: "opt_lookups (dicts (prepare_filter_fields sample_constants sample_view) ! 0) =
              Some [''geo_distance'']"
    and c4: "opt_field (dicts (prepare_filter_fields sample_constants sample_view) ! 0) =
              Some ''loc''"
    by simp_all
  from c3 c4 have c5: "dicts (prepare_filter_fields sample_constants sample_view) ! 0 =
     \<lparr>opt_field = Some ''loc'', opt_lookups = Some [''geo_distance'']\<rparr>"
    by (cases "dicts (prepare_filter_fields sample_constants sample_view) ! 0") simp
  from prepare_filter_fields_entries [OF sample_wf f2, of sample_constants] all
  have c6: "\<exists>a. map_of (geo_spatial_filter_fields (prepare_filter_fields sample_constants sample_view))
          ''loc'' = Some (PyDict a) \<and>
        dicts (prepare_filter_fields sample_constants sample_view) ! a =
          \<lparr>opt_field = Some ''location'', opt_lookups = Some [''geo_distance'']\<rparr>"
    by auto
  from prepare_filter_fields_entries [OF sample_wf f3, of sample_constants] all
  have c7: "\<exists>a. map_of (geo_spatial_filter_fields (prepare_filter_fields sample_constants sample_view))
          ''place'' = Some (PyDict a) \<and>
        dicts (prepare_filter_fields sample_constants sample_view) ! a =
          \<lparr>opt_field = Some ''place'', opt_lookups = Some [''geo_distance'']\<rparr>"
    by auto
  from c1 c2 c5 c6 c7 show ?thesis by blast
qed

text \<open>
  C6, as the claim states it, fails when two keys hold one dictionary object: the object
  lacks a target field, the first key fills in its own name, and the entry of the second
  key then has the first key as target field.
\<close>

theorem prepare_filter_fields_shared_counterexample:
  "wf_view shared_view \<and>
   geo_spatial_filter_fields shared_view = [(''a'', PyDict 0), (''b'', PyDict 0)] \<and>
   opt_field (dicts shared_view ! 0) = None \<and>
   map_of (geo_spatial_filter_fields (prepare_filter_fields sample_constants shared_view)) ''b'' =
     Some (PyDict 0) \<and>
   opt_field (dicts (prepare_filter_fields sample_constants shared_view) ! 0) = Some ''a'' \<and>
   ''a'' \<noteq> ''b''"
  by code_simp

subsection \<open>C7: one clause for each value, in order\<close>

text \<open>
  C7, as the code has it. When no entry of the extractor's output with the geo-distance
  lookup has a target field named \<^verbatim>\<open>name_or_query\<close> or \<^verbatim>\<open>self\<close>,
  \<^verbatim>\<open>filter_queryset\<close> returns the builder with, after the clauses it had, one
  \<^verbatim>\<open>geo_distance\<close> clause for each value of each such entry: entry after entry in the
  order of the output, and within an entry value after value. The values of such an entry
  are the trimmed raw values in the order of the request, each value has its clause, and
  the loop over the values of one entry adds exactly these clauses, in order, to any
  builder.
\<close>

theorem geo_distance_values_in_order:
  assumes "SEPARATOR_LOOKUP_VALUE K \<noteq> []"
    and "get_filter_query_params K req v = Inr fqp"
    and "\<forall>(key, opts) \<in> set fqp.
           fq_lookup opts = Some (LOOKUP_FILTER_GEO_DISTANCE K) \<longrightarrow>
           fq_field opts \<noteq> ''name_or_query'' \<and> fq_field opts \<noteq> ''self''"
  shows "filter_queryset K req queryset v =
           Inr (Search (queries queryset @
                  concat (map (\<lambda>(key, opts).
                            if fq_lookup opts = Some (LOOKUP_FILTER_GEO_DISTANCE K)
                            then map (\<lambda>x. projr (geo_distance_clause K (fq_field opts) x))
                                   (fq_values opts)
                            else []) fqp))) \<and>
         (\<forall>(key, opts) \<in> set fqp.
            fq_lookup opts = Some (LOOKUP_FILTER_GEO_DISTANCE K) \<longrightarrow>
            fq_values opts =
              map strip (filter (\<lambda>x. strip x \<noteq> []) (getlist (query_params req) key)) \<and>
            (\<forall>x \<in> set (fq_values opts). \<exists>c. geo_distance_clause K (fq_field opts) x = Inr c) \<and>
            (\<forall>qs. filter_queryset_values K qs opts (fq_values opts) =
                    Inr (Search (queries qs @
                           map (\<lambda>x. projr (geo_distance_clause K (fq_field opts) x))
                             (fq_values opts)))))"
proof (intro conjI)
  have ok: "\<And>opts x. opts \<in> set (map snd fqp) \<Longrightarrow>
              fq_lookup opts = Some (LOOKUP_FILTER_GEO_DISTANCE K) \<Longrightarrow>
              \<exists>c. geo_distance_clause K (fq_field opts) x = Inr c"
  proof -
    fix opts x
    assume "opts \<in> set (map snd fqp)" and "fq_lookup opts = Some (LOOKUP_FILTER_GEO_DISTANCE K)"
    with assms(3) have "fq_field opts \<noteq> ''name_or_query''" "fq_field opts \<noteq> ''self''"
      by auto
    with assms(1) show "\<exists>c. geo_distance_clause K (fq_field opts) x = Inr c"
      by (rule clause_total)
  qed
  have "filter_queryset_loop K queryset (map snd fqp) =
     Inr (Search (queries queryset @
            concat (map (\<lambda>opts. if fq_lookup opts = Some (LOOKUP_FILTER_GEO_DISTANCE K)
                                then map (\<lambda>x. projr (geo_distance_clause K (fq_field opts) x))
                                       (fq_values opts)
                                else []) (map snd fqp))))"
    using ok by (intro loop_clauses) blast
  with assms(2) show "filter_queryset K req queryset v =
           Inr (Search (queries queryset @
                  concat (map (\<lambda>(key, opts).
                            if fq_lookup opts = Some (LOOKUP_FILTER_GEO_DISTANCE K)
                            then map (\<lambda>x. projr (geo_distance_clause K (fq_field opts) x))
                                   (fq_values opts)
                            else []) fqp)))"
    by (simp add: filter_queryset_def comp_def case_prod_unfold)
  show "\<forall>(key, opts) \<in> set fqp.
            fq_lookup opts = Some (LOOKUP_FILTER_GEO_DISTANCE K) \<longrightarrow>
            fq_values opts =
              map strip (filter (\<lambda>x. strip x \<noteq> []) (getlist (query_params req) key)) \<and>
            (\<forall>x \<in> set (fq_values opts). \<exists>c. geo_distance_clause K (fq_field opts) x = Inr c) \<and>
            (\<forall>qs. filter_queryset_values K qs opts (fq_values opts) =
                    Inr (Search (queries qs @
                           map (\<lambda>x. projr (geo_distance_clause K (fq_field opts) x))
                             (fq_values opts))))"
  proof (clarify, intro conjI ballI allI)
    fix key opts
    assume mem: "(key, opts) \<in> set fqp"
      and geo: "fq_lookup opts = Some (LOOKUP_FILTER_GEO_DISTANCE K)"
    from mem assms(2) have
      "get_filter_query_param K req (prepare_filter_fields K v) key = Inr (Some opts)"
      by (simp add: extractor_entry)
    from get_filter_query_param_Some[OF this]
    show "fq_values opts =
            map strip (filter (\<lambda>x. strip x \<noteq> []) (getlist (query_params req) key))"
      by blast
    from mem have in_snd: "opts \<in> set (map snd fqp)" by force
    show "\<And>x. x \<in> set (fq_values opts) \<Longrightarrow>
            \<exists>c. geo_distance_clause K (fq_field opts) x = Inr c"
      using ok[OF in_snd geo] by blast
    show "\<And>qs. filter_queryset_values K qs opts (fq_values opts) =
                    Inr (Search (queries qs @
                           map (\<lambda>x. projr (geo_distance_clause K (fq_field opts) x))
                             (fq_values opts)))"
      using ok[OF in_snd geo] by (intro values_geo[OF geo]) blast
  qed
qed

text \<open>
  The instances of C7 at the sample request, where \<^verbatim>\<open>filter_queryset\<close> adds the
  clauses of the two values of the geo-distance parameter in the order of the request, and
  at a target field \<^verbatim>\<open>place__loc\<close>, whose clause has the key \<^verbatim>\<open>place.loc\<close>.
\<close>

theorem geo_distance_values_in_order_witness:
  "filter_queryset sample_constants sample_request (Search []) sample_view =
     Inr (Search
       [Query ''geo_distance''
          [(''distance'', Str ''10km''), (''loc'', LatLon ''40.1'' ''-71.2''),
           (''distance_type'', Str ''sloppy_arc'')],
        Query ''geo_distance''
          [(''distance'', Str ''2km''), (''loc'', LatLon ''1.5'' ''2.5''),
           (''distance_type'', Str ''plane'')]]) \<and>
   filter_queryset sample_constants
       \<lparr>query_params = [(''location__geo_distance'', [''1km:2:3''])]\<rparr>
       (Search [Query ''match_all'' []])
       \<lparr>geo_spatial_filter_fields = [(''location'', PyStr ''place__loc'')],
        dicts = [], mapping = ''m''\<rparr> =
     Inr (Search
       [Query ''match_all'' [],
        Query ''geo_distance''
          [(''distance'', Str ''1km''), (''place.loc'', LatLon ''2'' ''3''),
           (''distance_type'', Str ''sloppy_arc'')]])"
proof -
  have sep: "SEPARATOR_LOOKUP_VALUE sample_constants \<noteq> []"
    by (simp add: sample_constants_def)
  have names: "\<forall>(key, opts) \<in> set [(''location__geo_distance'',
           \<lparr>fq_lookup = Some ''geo_distance'',
            fq_values = [''10km:40.1:-71.2'', ''2km:1.5:2.5:plane''],
            fq_field = ''loc'', fq_type = ''article''\<rparr>),
          (''loc'',
           \<lparr>fq_lookup = None, fq_values = [''x''],
            fq_field = ''location'', fq_type = ''article''\<rparr>)].
           fq_lookup opts = Some (LOOKUP_FILTER_GEO_DISTANCE sample_constants) \<longrightarrow>
           fq_field opts \<noteq> ''name_or_query'' \<and> fq_field opts \<noteq> ''self''"
    by simp
  have dotted_names: "\<forall>(key, opts) \<in> set [(''location__geo_distance'',
           \<lparr>fq_lookup = Some ''geo_distance'', fq_values = [''1km:2:3''],
            fq_field = ''place__loc'', fq_type = ''m''\<rparr>)].
           fq_lookup opts = Some (LOOKUP_FILTER_GEO_DISTANCE sample_constants) \<longrightarrow>
           fq_field opts \<noteq> ''name_or_query'' \<and> fq_field opts \<noteq> ''self''"
    by simp
  have geo: "LOOKUP_FILTER_GEO_DISTANCE sample_constants = ''geo_distance''"
    by (simp add: sample_constants_def)
  from geo_distance_values_in_order [OF sep sample_extract names, of "Search []"]
  have first: "filter_queryset sample_constants sample_request (Search []) sample_view =
     Inr (Search
       [Query ''geo_distance''
          [(''distance'', Str ''10km''), (''loc'', LatLon ''40.1'' ''-71.2''),
           (''distance_type'', Str ''sloppy_arc'')],
        Query ''geo_distance''
          [(''distance'', Str ''2km''), (''loc'', LatLon ''1.5'' ''2.5''),
           (''distance_type'', Str ''plane'')]])"
    by (simp add: geo sample_clause_1 sample_clause_2)
  from geo_distance_values_in_order
         [OF sep dotted_extract dotted_names, of "Search [Query ''match_all'' []]"]
  have second: "filter_queryset sample_constants
       \<lparr>query_params = [(''location__geo_distance'', [''1km:2:3''])]\<rparr>
       (Search [Query ''match_all'' []])
       \<lparr>geo_spatial_filter_fields = [(''location'', PyStr ''place__loc'')],
        dicts = [], mapping = ''m''\<rparr> =
     Inr (Search
       [Query ''match_all'' [],
        Query ''geo_distance''
          [(''distance'', Str ''1km''), (''place.loc'', LatLon ''2'' ''3''),
           (''distance_type'', Str ''sloppy_arc'')]])"
    by (simp add: geo dotted_clause)
  from first second show ?thesis by (rule conjI)
qed

text \<open>
  C7, as the claim states it, fails for a target field named \<^verbatim>\<open>name_or_query\<close>: the
  parameter is recognized with its two values, and \<^verbatim>\<open>filter_queryset\<close> raises
  \<^verbatim>\<open>TypeError\<close> instead of adding a clause.
\<close>

theorem reserved_field_no_clause_counterexample:
  "get_filter_query_params sample_constants
       \<lparr>query_params = [(''location__geo_distance'', [''1km:2:3'', ''4km:5:6''])]\<rparr>
       \<lparr>geo_spatial_filter_fields = [(''location'', PyStr ''name_or_query'')],
        dicts = [], mapping = ''m''\<rparr> =
     Inr [(''location__geo_distance'',
           \<lparr>fq_lookup = Some ''geo_distance'', fq_values = [''1km:2:3'', ''4km:5:6''],
            fq_field = ''name_or_query'', fq_type = ''m''\<rparr>)] \<and>
   filter_queryset sample_constants
       \<lparr>query_params = [(''location__geo_distance'', [''1km:2:3'', ''4km:5:6''])]\<rparr>
       (Search [])
       \<lparr>geo_spatial_filter_fields = [(''location'', PyStr ''name_or_query'')],
        dicts = [], mapping = ''m''\<rparr> = Inl TypeError"
  by code_simp

subsection \<open>C8: no exception\<close>




subsection \<open>C9: normalization is idempotent\<close>

text \<open>
  C9. \<^verbatim>\<open>prepare_filter_fields\<close> leaves the view normalized, in place; normalizing that
  view again changes nothing, neither the dictionary nor any object, whether or not keys
  share an object.
\<close>

theorem prepare_filter_fields_idempotent:
  assumes "wf_view v"
  shows "prepare_filter_fields K (prepare_filter_fields K v) = prepare_filter_fields K v"
proof -
  let ?pv = "prepare_filter_fields K v"
  have dist: "distinct (map fst (geo_spatial_filter_fields ?pv))"
    using assms by (simp add: prepare_filter_fields_keys wf_viewD(1))
  have "\<And>k e. (k, e) \<in> set (geo_spatial_filter_fields ?pv) \<Longrightarrow>
          \<exists>a. e = PyDict a \<and> prepared (dicts ?pv ! a)"
  proof -
    fix k e assume "(k, e) \<in> set (geo_spatial_filter_fields ?pv)"
    with dist have "map_of (geo_spatial_filter_fields ?pv) k = Some e"
      by (rule map_of_is_SomeI)
    with assms prepare_filter_fields_prepared[of v K k e]
    show "\<exists>a. e = PyDict a \<and> prepared (dicts ?pv ! a)" by blast
  qed
  then have "prepare_loop K (geo_spatial_filter_fields ?pv) ?pv = ?pv"
    by (rule prepare_loop_id)
  then show ?thesis
    by (simp add: prepare_filter_fields_def)
qed

text \<open>
  The instances of C9 at the sample view and at the view in which two keys hold one object.
\<close>

theorem prepare_filter_fields_idempotent_witness:
  "prepare_filter_fields sample_constants (prepare_filter_fields sample_constants sample_view) =
     \<lparr>geo_spatial_filter_fields =
        [(''location'', PyDict 0), (''loc'', PyDict 1), (''place'', PyDict 2)],
      dicts =
        [\<lparr>opt_field = Some ''loc'', opt_lookups = Some [''geo_distance'']\<rparr>,
         \<lparr>opt_field = Some ''location'', opt_lookups = Some [''geo_distance'']\<rparr>,
         \<lparr>opt_field = Some ''place'', opt_lookups = Some [''geo_distance'']\<rparr>],
      mapping = ''article''\<rparr> \<and>
   prepare_filter_fields sample_constants (prepare_filter_fields sample_constants shared_view) =
     \<lparr>geo_spatial_filter_fields = [(''a'', PyDict 0), (''b'', PyDict 0)],
      dicts = [\<lparr>opt_field = Some ''a'', opt_lookups = Some [''geo_distance'']\<rparr>],
      mapping = ''article''\<rparr>"
proof -
  have shared_wf: "wf_view shared_view"
    by code_simp
  have shared_prepare:
    "prepare_filter_fields sample_constants shared_view =
       \<lparr>geo_spatial_filter_fields = [(''a'', PyDict 0), (''b'', PyDict 0)],
        dicts = [\<lparr>opt_field = Some ''a'', opt_lookups = Some [''geo_distance'']\<rparr>],
        mapping = ''article''\<rparr>"
    by code_simp
  from prepare_filter_fields_idempotent [OF sample_wf, of sample_constants]
    prepare_filter_fields_idempotent [OF shared_wf, of sample_constants]
    sample_prepare shared_prepare
  show ?thesis by simp
qed

subsection \<open>C10: a parameter without a lookup suffix\<close>

text \<open>
  C10, as the code has it. On a well-formed view, a parameter of the request whose key has
  no separator, whose key is a configured field and which has a value that is not blank,
  is in the extractor's output with no lookup, and the loop of \<^verbatim>\<open>filter_queryset\<close>
  over its values returns the builder as it received it.
\<close>

theorem no_suffix_parameter_inert:
  assumes "wf_view v"
    and "split_lookup_filter K key 1 = Inr [key]"
    and "key \<in> fst ` set (query_params req)"
    and "key \<in> fst ` set (geo_spatial_filter_fields v)"
    and "\<exists>x \<in> set (getlist (query_params req) key). strip x \<noteq> []"
  shows "\<exists>fqp r. get_filter_query_params K req v = Inr fqp \<and> (key, r) \<in> set fqp \<and>
           fq_lookup r = None \<and>
           filter_queryset_values K queryset r (fq_values r) = Inr queryset"
proof -
  let ?pv = "prepare_filter_fields K v"
  from assms(2) have sep: "SEPARATOR_LOOKUP_FILTER K \<noteq> []"
    by (simp add: split_lookup_filter_Inr)
  from extractor_total[OF sep assms(1)] obtain fqp where
    fqp: "get_filter_query_params K req v = Inr fqp" by blast
  from assms(4) have "key \<in> set (map fst (geo_spatial_filter_fields ?pv))"
    by (simp add: prepare_filter_fields_keys)
  then obtain e where e: "map_of (geo_spatial_filter_fields ?pv) key = Some e"
    by (metis domD dom_map_of_conv_image_fst list.set_map)
  from prepare_filter_fields_prepared[OF assms(1) e] obtain a where
    a: "e = PyDict a" "prepared (dicts ?pv ! a)"
    by blast
  from e a(1) have "map_of (geo_spatial_filter_fields ?pv) key = Some (PyDict a)" by simp
  from get_filter_query_param_no_suffix[OF assms(2) this a(2) assms(5)] obtain r where
    r: "get_filter_query_param K req ?pv key = Inr (Some r)" "fq_lookup r = None"
    by blast
  from r(1) assms(3) fqp have mem: "(key, r) \<in> set fqp"
    by (simp add: extractor_entry)
  from r(2) have "filter_queryset_values K queryset r (fq_values r) = Inr queryset"
    by (simp add: values_other)
  with fqp mem r(2) show ?thesis by blast
qed

text \<open>The instance of C10 at the parameter \<^verbatim>\<open>loc=x\<close> of the sample request.\<close>

theorem no_suffix_parameter_inert_witness:
  "\<exists>fqp r. get_filter_query_params sample_constants sample_request sample_view = Inr fqp \<and>
     (''loc'', r) \<in> set fqp \<and> fq_lookup r = None \<and>
     filter_queryset_values sample_constants (Search []) r (fq_values r) = Inr (Search [])"
proof -
  have a: "split_lookup_filter sample_constants ''loc'' 1 = Inr [''loc'']"
    by code_simp
  have b: "''loc'' \<in> fst ` set (query_params sample_request)"
    by (simp add: sample_request_def)
  have c: "''loc'' \<in> fst ` set (geo_spatial_filter_fields sample_view)"
    by (simp add: sample_view_def)
  have "strip ''x'' \<noteq> []"
    by code_simp
  then have d: "\<exists>x \<in> set (getlist (query_params sample_request) ''loc''). strip x \<noteq> []"
    by (simp add: sample_request_def getlist_def)
  from no_suffix_parameter_inert [OF sample_wf a b c d] show ?thesis .
qed

text \<open>
  C10, as the claim states it, fails: neither \<^verbatim>\<open>place\<close>, a configured field whose
  only value is blank, nor \<^verbatim>\<open>foo\<close>, which is not configured, has a lookup suffix, and
  neither is in the extractor's output.
\<close>

theorem no_suffix_parameter_counterexample:
  "split_lookup_filter sample_constants ''place'' 1 = Inr [''place''] \<and>
   split_lookup_filter sample_constants ''foo'' 1 = Inr [''foo''] \<and>
   get_filter_query_params sample_constants
       \<lparr>query_params = [(''place'', [''   '']), (''foo'', [''y''])]\<rparr> sample_view = Inr []"
  by code_simp

end
